theory Spec2Isabelle
  imports Main "HOL-Library.Sublist"
begin

section \<open>JavaScript values\<close>

text \<open>
  The connectors of \<^verbatim>\<open>server_connector.js\<close> handle what \<^verbatim>\<open>JSON.parse\<close> and
  \<^verbatim>\<open>response.json()\<close> return, and read properties that may be absent. A value is a JSON
  tree or \<^verbatim>\<open>undefined\<close>. Numbers are kept as integers: the code only tests them for
  truth. An object is its list of own properties, read with \<open>map_of\<close>.
\<close>

datatype js_value =
    JUndefined
  | JNull
  | JBool bool
  | JNum int
  | JStr string
  | JArr "js_value list"
  | JObj "(string \<times> js_value) list"

text \<open>\<^verbatim>\<open>if (v)\<close>: JavaScript's ToBoolean.\<close>

fun truthy :: "js_value \<Rightarrow> bool" where
  "truthy JUndefined = False"
| "truthy JNull = False"
| "truthy (JBool b) = b"
| "truthy (JNum n) = (n \<noteq> 0)"
| "truthy (JStr s) = (s \<noteq> [])"
| "truthy (JArr xs) = True"
| "truthy (JObj kvs) = True"

text \<open>
  \<^verbatim>\<open>v.k\<close> for a \<open>v\<close> that is neither \<^verbatim>\<open>null\<close> nor \<^verbatim>\<open>undefined\<close>, and a key \<open>k\<close> that no
  prototype defines (\<^verbatim>\<open>message_type\<close>, \<^verbatim>\<open>error\<close>, \<^verbatim>\<open>device_info\<close>, \<^verbatim>\<open>payload\<close>): the own
  property, or \<^verbatim>\<open>undefined\<close>.
\<close>

fun get_prop :: "js_value \<Rightarrow> string \<Rightarrow> js_value" where
  "get_prop (JObj kvs) k = (case map_of kvs k of None \<Rightarrow> JUndefined | Some v \<Rightarrow> v)"
| "get_prop v k = JUndefined"

text \<open>Reading a property of \<^verbatim>\<open>null\<close> or \<^verbatim>\<open>undefined\<close> throws.\<close>

definition nullish :: "js_value \<Rightarrow> bool" where
  "nullish v = (v = JNull \<or> v = JUndefined)"

datatype js_error =
    CannotReadProperty   \<comment> \<open>TypeError: a property of \<^verbatim>\<open>null\<close> was read\<close>
  | NotAFunction         \<comment> \<open>TypeError: \<^verbatim>\<open>undefined\<close> was called\<close>
  | InvalidState         \<comment> \<open>\<^verbatim>\<open>WebSocket.send\<close> on a socket that is still connecting\<close>
  | FetchRejected js_value  \<comment> \<open>\<^verbatim>\<open>fetch\<close> or \<^verbatim>\<open>response.json()\<close> rejected, with its reason\<close>

text \<open>
  An argument of \<^verbatim>\<open>console.error\<close>, \<^verbatim>\<open>resolve\<close> or \<^verbatim>\<open>reject\<close>: a value, or the string
  \<^verbatim>\<open>s + v\<close> (\<open>Concat s v\<close>), kept as the two operands of the concatenation.
\<close>

datatype js_arg = Val js_value | Concat string js_value

section \<open>Promises, callbacks and effects\<close>

text \<open>A promise settles once: \<^verbatim>\<open>resolve\<close> and \<^verbatim>\<open>reject\<close> on a settled promise do nothing.\<close>

datatype promise = Pending | Fulfilled js_value | Rejected js_arg | Threw js_error

definition settle :: "nat \<Rightarrow> promise \<Rightarrow> promise list \<Rightarrow> promise list" where
  "settle p v ps = (if p < length ps \<and> ps ! p = Pending then ps[p := v] else ps)"

text \<open>
  \<^verbatim>\<open>#onDeviceMsgCb\<close>: the initial arrow function that logs, or the listener the client
  registered with \<^verbatim>\<open>onDeviceMsg\<close>. A listener is opaque: it is named by a number, its
  calls are recorded, and it returns normally.
\<close>

datatype callback = NoListener | Listener nat

text \<open>What a connector does to the world, in order.\<close>

datatype effect =
    ConsoleError "js_arg list"
  | ListenerCalled nat js_value
  | ResolveCalled nat js_value
  | RejectCalled nat js_arg
  | WsSend js_value
  | HttpGet string
  | HttpPost "string option" js_value
  | GetMessages "string option" nat
  | SetTimeout nat nat

section \<open>WebsocketConnector\<close>

text \<open>
  \<^verbatim>\<open>#futures\<close> has three slots. \<open>onDeviceAvailable\<close> and \<open>onConnectionFailed\<close> hold the
  \<^verbatim>\<open>resolve\<close> and \<^verbatim>\<open>reject\<close> of the promise that \<^verbatim>\<open>requestDevice\<close> created (\<open>None\<close>: the
  slot is absent); \<open>infraConfig\<close> is \<^verbatim>\<open>undefined\<close> until a \<^verbatim>\<open>config\<close> message is stored.
\<close>

datatype ready_state = CONNECTING | OPEN | CLOSING | CLOSED

record ws_connector =
  readyState :: ready_state
  onDeviceAvailable :: "nat option"
  onConnectionFailed :: "nat option"
  infraConfig :: js_value
  onDeviceMsgCb :: callback
  promises :: "promise list"
  effects :: "effect list"

text \<open>
  \<^verbatim>\<open>createConnector\<close> builds the connector from the socket that \<^verbatim>\<open>connectWs\<close> resolved
  with, in its \<^verbatim>\<open>onopen\<close>: the socket is open.
\<close>

definition new_WebsocketConnector :: ws_connector where
  "new_WebsocketConnector =
     \<lparr>readyState = OPEN, onDeviceAvailable = None, onConnectionFailed = None, infraConfig = JUndefined,
      onDeviceMsgCb = NoListener, promises = [], effects = []\<rparr>"

definition emit :: "effect \<Rightarrow> ws_connector \<Rightarrow> ws_connector" where
  "emit e s = s\<lparr>effects := effects s @ [e]\<rparr>"

definition ws_onDeviceMsg :: "nat \<Rightarrow> ws_connector \<Rightarrow> ws_connector" where
  "ws_onDeviceMsg cb s = s\<lparr>onDeviceMsgCb := Listener cb\<rparr>"

text \<open>\<^verbatim>\<open>this.#onDeviceMsgCb(payload)\<close>.\<close>

definition call_cb :: "callback \<Rightarrow> js_value \<Rightarrow> effect" where
  "call_cb cb payload =
     (case cb of
        NoListener \<Rightarrow>
          ConsoleError [Val (JStr ''Received device message without registered listener'')]
      | Listener k \<Rightarrow> ListenerCalled k payload)"

text \<open>
  \<^verbatim>\<open>#wsSendJson(obj)\<close>, an async function around \<^verbatim>\<open>WebSocket.send\<close>: on an open socket
  the serialised object is written; on a closing or closed one \<^verbatim>\<open>send\<close> drops it without
  an exception; only on a socket that is still connecting does \<^verbatim>\<open>send\<close> throw. Returns the
  state of the promise handed back.
\<close>

definition wsSendJson :: "js_value \<Rightarrow> ws_connector \<Rightarrow> promise \<times> ws_connector" where
  "wsSendJson obj s =
     (case readyState s of
        CONNECTING \<Rightarrow> (Threw InvalidState, s)
      | OPEN \<Rightarrow> (Fulfilled JUndefined, emit (WsSend obj) s)
      | CLOSING \<Rightarrow> (Fulfilled JUndefined, s)
      | CLOSED \<Rightarrow> (Fulfilled JUndefined, s))"

text \<open>
  \<^verbatim>\<open>requestDevice(deviceId)\<close>: a new promise, whose \<^verbatim>\<open>resolve\<close> and \<^verbatim>\<open>reject\<close> go into
  \<^verbatim>\<open>#futures\<close>, and a \<^verbatim>\<open>connect\<close> message, whose own promise is dropped. Returns the new
  promise with the connector.
\<close>

definition ws_requestDevice :: "js_value \<Rightarrow> ws_connector \<Rightarrow> nat \<times> ws_connector" where
  "ws_requestDevice deviceId s =
     (let p = length (promises s);
          s1 = s\<lparr>promises := promises s @ [Pending]\<rparr>;
          s2 = s1\<lparr>onDeviceAvailable := Some p\<rparr>;
          s3 = s2\<lparr>onConnectionFailed := Some p\<rparr>
      in (p, snd (wsSendJson
                    (JObj [(''message_type'', JStr ''connect''), (''device_id'', deviceId)]) s3)))"

text \<open>
  \<^verbatim>\<open>sendToDevice(msg)\<close>: an async function that returns what \<^verbatim>\<open>#wsSendJson\<close> returns.
  Nothing in it reads \<^verbatim>\<open>#futures\<close>.
\<close>

definition ws_sendToDevice :: "js_value \<Rightarrow> ws_connector \<Rightarrow> promise \<times> ws_connector" where
  "ws_sendToDevice msg s =
     wsSendJson (JObj [(''message_type'', JStr ''forward''), (''payload'', msg)]) s"

definition call_resolve :: "nat \<Rightarrow> js_value \<Rightarrow> ws_connector \<Rightarrow> ws_connector" where
  "call_resolve p v s =
     emit (ResolveCalled p v) (s\<lparr>promises := settle p (Fulfilled v) (promises s)\<rparr>)"

definition call_reject :: "nat \<Rightarrow> js_arg \<Rightarrow> ws_connector \<Rightarrow> ws_connector" where
  "call_reject p e s =
     emit (RejectCalled p e) (s\<lparr>promises := settle p (Rejected e) (promises s)\<rparr>)"

text \<open>
  \<^verbatim>\<open>#onWebsocketMessage(message)\<close>. \<open>Inl\<close> is a throw, with the connector as the throw
  left it; \<open>Inr\<close> is a normal return.
\<close>

definition onWebsocketMessage ::
  "js_value \<Rightarrow> ws_connector \<Rightarrow> (js_error \<times> ws_connector) + ws_connector" where
  "onWebsocketMessage message s =
     (if nullish message then Inl (CannotReadProperty, s)
      else
        let type = get_prop message ''message_type'' in
        if truthy (get_prop message ''error'') then
          (let s1 = emit (ConsoleError [Val (get_prop message ''error'')]) s in
           case onConnectionFailed s1 of
             None \<Rightarrow> Inl (NotAFunction, s1)
           | Some p \<Rightarrow> Inr (call_reject p (Val (get_prop message ''error'')) s1))
        else if type = JStr ''config'' then
          Inr (s\<lparr>infraConfig := message\<rparr>)
        else if type = JStr ''device_info'' then
          (case onDeviceAvailable s of
             Some p \<Rightarrow>
               Inr ((call_resolve p
                      (JObj [(''deviceInfo'', get_prop message ''device_info''),
                             (''infraConfig'', infraConfig s)]) s)
                    \<lparr>onDeviceAvailable := None\<rparr>)
           | None \<Rightarrow>
               Inr (emit (ConsoleError [Val (JStr ''Received unsolicited device info'')]) s))
        else if type = JStr ''device_msg'' then
          Inr (emit (call_cb (onDeviceMsgCb s) (get_prop message ''payload'')) s)
        else
          (let s1 = emit (ConsoleError
                            [Val (JStr ''Unrecognized message type from server: ''), Val type]) s
           in case onConnectionFailed s1 of
                None \<Rightarrow> Inl (NotAFunction, s1)
              | Some p \<Rightarrow>
                  Inr (emit (ConsoleError [Val message])
                        (call_reject p
                          (Concat ''Unrecognized message type from server: '' type) s1))))"

text \<open>The tests of the handler on a message, by name.\<close>

definition has_error :: "js_value \<Rightarrow> bool" where
  "has_error message = truthy (get_prop message ''error'')"

definition has_type :: "string \<Rightarrow> js_value \<Rightarrow> bool" where
  "has_type t message = (get_prop message ''message_type'' = JStr t)"

definition unrecognized :: "js_value \<Rightarrow> bool" where
  "unrecognized message =
     (\<not> nullish message \<and> \<not> has_type ''config'' message \<and> \<not> has_type ''device_info'' message
      \<and> \<not> has_type ''device_msg'' message)"

text \<open>
  What happens to a connector over its life: calls of the client and messages of the
  server. A throw of the message handler ends that handler only.
\<close>

datatype ws_event =
    RequestDevice js_value
  | SendToDevice js_value
  | OnDeviceMsg nat
  | Message js_value
  | SocketCloses

definition after_throw :: "(js_error \<times> ws_connector) + ws_connector \<Rightarrow> ws_connector" where
  "after_throw r = (case r of Inl (e, s) \<Rightarrow> s | Inr s \<Rightarrow> s)"

fun ws_step :: "ws_event \<Rightarrow> ws_connector \<Rightarrow> ws_connector" where
  "ws_step (RequestDevice d) s = snd (ws_requestDevice d s)"
| "ws_step (SendToDevice m) s = snd (ws_sendToDevice m s)"
| "ws_step (OnDeviceMsg cb) s = ws_onDeviceMsg cb s"
| "ws_step (Message m) s = after_throw (onWebsocketMessage m s)"
| "ws_step SocketCloses s = s\<lparr>readyState := CLOSED\<rparr>"

fun ws_run :: "ws_event list \<Rightarrow> ws_connector \<Rightarrow> ws_connector" where
  "ws_run [] s = s"
| "ws_run (e # es) s = ws_run es (ws_step e s)"

section \<open>PollingConnector\<close>

text \<open>\<^verbatim>\<open>httpUrl(path)\<close>, over the page's \<^verbatim>\<open>location\<close>.\<close>

record location =
  protocol :: string
  host :: string

definition httpUrl :: "location \<Rightarrow> string \<Rightarrow> string" where
  "httpUrl loc path = protocol loc @ ''//'' @ host loc @ ''/'' @ path"

text \<open>
  Each run of the body of \<^verbatim>\<open>#startPolling\<close> makes one closure \<^verbatim>\<open>pollerRoutine\<close> with its own
  variable \<^verbatim>\<open>currentPollDelay\<close>. At any moment the routine waits for its timer, waits for
  the reply to its \<^verbatim>\<open>#pollMessages\<close>, or has ended by an exception and scheduled nothing.
\<close>

datatype phase = Scheduled nat | Polling | Stopped

record poller =
  currentPollDelay :: nat
  phase :: phase

text \<open>
  The private fields of the class (\<open>None\<close>: \<^verbatim>\<open>undefined\<close>), the poller routines, the next
  timer id of \<^verbatim>\<open>setTimeout\<close>, and the effects so far.
\<close>

record polling_connector =
  configUrl :: string
  connectUrl :: string
  forwardUrl :: "string option"
  messagesUrl :: "string option"
  config :: "js_value option"
  messagesReceived :: nat
  pollerSchedule :: "nat option"
  listener :: callback
  pollers :: "poller list"
  nextTimer :: nat
  history :: "effect list"

definition new_PollingConnector :: "location \<Rightarrow> polling_connector" where
  "new_PollingConnector loc =
     \<lparr>configUrl = httpUrl loc ''infra_config'',
      connectUrl = httpUrl loc ''polled_connections'',
      forwardUrl = None, messagesUrl = None, config = None, messagesReceived = 0,
      pollerSchedule = None, listener = NoListener, pollers = [], nextTimer = 1, history = []\<rparr>"

definition did :: "effect \<Rightarrow> polling_connector \<Rightarrow> polling_connector" where
  "did e s = s\<lparr>history := history s @ [e]\<rparr>"

definition poll_onDeviceMsg :: "nat \<Rightarrow> polling_connector \<Rightarrow> polling_connector" where
  "poll_onDeviceMsg cb s = s\<lparr>listener := Listener cb\<rparr>"

text \<open>
  What a \<^verbatim>\<open>fetch\<close> followed by \<^verbatim>\<open>json()\<close> comes back with: the decoded body, or the
  reason of the rejection. The body of the messages endpoint is an array.
\<close>

datatype 'a reply = Arrived 'a | Failed js_value

text \<open>
  \<^verbatim>\<open>#getConfig()\<close> up to its \<^verbatim>\<open>await\<close>: with a stored value it returns at once (\<open>Some\<close>);
  with none it sends the GET and waits (\<open>None\<close>).
\<close>

definition getConfig_call :: "polling_connector \<Rightarrow> js_value option \<times> polling_connector" where
  "getConfig_call s =
     (case config s of
        None \<Rightarrow> (None, did (HttpGet (configUrl s)) s)
      | Some c \<Rightarrow> (Some c, s))"

text \<open>
  \<^verbatim>\<open>#getConfig()\<close> from its \<^verbatim>\<open>await\<close> on: the reply is stored and returned. A rejection
  leaves the field as it is.
\<close>

definition getConfig_resume ::
  "js_value reply \<Rightarrow> polling_connector \<Rightarrow> promise \<times> polling_connector" where
  "getConfig_resume r s =
     (case r of
        Failed e \<Rightarrow> (Threw (FetchRejected e), s)
      | Arrived c \<Rightarrow> (Fulfilled c, s\<lparr>config := Some c\<rparr>))"

text \<open>
  \<^verbatim>\<open>#startPolling()\<close>: nothing when \<^verbatim>\<open>#pollerSchedule\<close> is set; else a new routine whose
  delay starts at 1000 and whose first timer is set with it.
\<close>

definition setTimeout :: "nat \<Rightarrow> polling_connector \<Rightarrow> nat \<times> polling_connector" where
  "setTimeout delay s =
     (nextTimer s, did (SetTimeout (nextTimer s) delay) (s\<lparr>nextTimer := nextTimer s + 1\<rparr>))"

definition startPolling :: "polling_connector \<Rightarrow> polling_connector" where
  "startPolling s =
     (if pollerSchedule s \<noteq> None then s
      else
        let currentPollDelay = 1000;
            (t, s1) = setTimeout currentPollDelay s
        in s1\<lparr>pollers := pollers s1 @ [\<lparr>currentPollDelay = currentPollDelay, phase = Scheduled t\<rparr>],
               pollerSchedule := Some t\<rparr>)"

text \<open>
  \<^verbatim>\<open>requestDevice\<close>: after the configuration, the POST to the connect endpoint; and with
  its reply, the two urls of the connection, the start of polling and the result.
\<close>

record connect_response =
  connection_id :: string
  device_info :: js_value

definition requestDevice_post :: "js_value \<Rightarrow> polling_connector \<Rightarrow> polling_connector" where
  "requestDevice_post deviceId s =
     did (HttpPost (Some (connectUrl s)) (JObj [(''device_id'', deviceId)])) s"

text \<open>
  \<^verbatim>\<open>sendToDevice(msg)\<close>: the POST of \<^verbatim>\<open>ajaxPostJson\<close> to \<^verbatim>\<open>#forwardUrl\<close>, whatever that field
  holds (\<open>None\<close>: \<^verbatim>\<open>fetch\<close> gets \<^verbatim>\<open>undefined\<close> for its url and does not throw); then the
  promise is the decoded reply, or the rejection of \<^verbatim>\<open>fetch\<close> or \<^verbatim>\<open>json()\<close>.
\<close>

definition poll_sendToDevice_call :: "js_value \<Rightarrow> polling_connector \<Rightarrow> polling_connector" where
  "poll_sendToDevice_call msg s = did (HttpPost (forwardUrl s) (JObj [(''payload'', msg)])) s"

definition poll_sendToDevice_resume :: "js_value reply \<Rightarrow> promise" where
  "poll_sendToDevice_resume r =
     (case r of Failed e \<Rightarrow> Threw (FetchRejected e) | Arrived v \<Rightarrow> Fulfilled v)"

definition requestDevice_connected ::
  "location \<Rightarrow> js_value \<Rightarrow> connect_response \<Rightarrow> polling_connector
     \<Rightarrow> js_value \<times> polling_connector" where
  "requestDevice_connected loc cfg response s =
     (let connId = connection_id response;
          s1 = s\<lparr>forwardUrl := Some (httpUrl loc (''polled_connections/'' @ connId @ ''/:forward''))\<rparr>;
          s2 = s1\<lparr>messagesUrl := Some (httpUrl loc (''polled_connections/'' @ connId @ ''/messages''))\<rparr>
      in (JObj [(''deviceInfo'', device_info response), (''infraConfig'', cfg)], startPolling s2))"

text \<open>
  The timer of routine \<open>i\<close> expires: \<^verbatim>\<open>pollerRoutine\<close> runs into \<^verbatim>\<open>#pollMessages\<close>, which
  sends the GET with the cursor as it is now, and waits. A timer expires only for a
  routine that waits for it, and a reply arrives only for a routine that polls: both
  steps test it, so the routine \<open>i\<close> they update exists.
\<close>

definition set_phase :: "nat \<Rightarrow> phase \<Rightarrow> polling_connector \<Rightarrow> polling_connector" where
  "set_phase i ph s = s\<lparr>pollers := (pollers s)[i := (pollers s ! i)\<lparr>phase := ph\<rparr>]\<rparr>"

definition set_delay :: "nat \<Rightarrow> nat \<Rightarrow> polling_connector \<Rightarrow> polling_connector" where
  "set_delay i d s = s\<lparr>pollers := (pollers s)[i := (pollers s ! i)\<lparr>currentPollDelay := d\<rparr>]\<rparr>"

definition waiting :: "nat \<Rightarrow> polling_connector \<Rightarrow> bool" where
  "waiting i s = (i < length (pollers s) \<and> (case phase (pollers s ! i) of Scheduled t \<Rightarrow> True | _ \<Rightarrow> False))"

definition polling :: "nat \<Rightarrow> polling_connector \<Rightarrow> bool" where
  "polling i s = (i < length (pollers s) \<and> phase (pollers s ! i) = Polling)"

definition timer_fires :: "nat \<Rightarrow> polling_connector \<Rightarrow> polling_connector" where
  "timer_fires i s =
     (if waiting i s
      then set_phase i Polling (did (GetMessages (messagesUrl s) (messagesReceived s)) s)
      else s)"

text \<open>
  The loop \<^verbatim>\<open>for (const message of messages)\<close> of routine \<open>i\<close>: the callback gets
  \<^verbatim>\<open>message.payload\<close>, and the delay goes back to 1000. Reading \<^verbatim>\<open>payload\<close> of a \<^verbatim>\<open>null\<close>
  element throws.
\<close>

fun deliver ::
  "nat \<Rightarrow> js_value list \<Rightarrow> polling_connector \<Rightarrow> (js_error \<times> polling_connector) + polling_connector" where
  "deliver i [] s = Inr s"
| "deliver i (message # messages) s =
     (if nullish message then Inl (CannotReadProperty, s)
      else deliver i messages
             (set_delay i 1000 (did (call_cb (listener s) (get_prop message ''payload'')) s)))"

text \<open>
  The reply to the GET of routine \<open>i\<close> arrives: \<^verbatim>\<open>#pollMessages\<close> adds the length of the
  array to the cursor; \<^verbatim>\<open>pollerRoutine\<close> doubles the delay up to 60000, runs the loop and
  sets the next timer. A rejected fetch or a throw of the loop ends the routine before
  \<^verbatim>\<open>setTimeout\<close>.
\<close>

definition pollerRoutine_resume ::
  "nat \<Rightarrow> js_value list reply \<Rightarrow> polling_connector
     \<Rightarrow> (js_error \<times> polling_connector) + polling_connector" where
  "pollerRoutine_resume i r s =
     (case r of
        Failed e \<Rightarrow> Inl (FetchRejected e, set_phase i Stopped s)
      | Arrived arr \<Rightarrow>
          let s1 = s\<lparr>messagesReceived := messagesReceived s + length arr\<rparr>;
              s2 = set_delay i (min 60000 (2 * currentPollDelay (pollers s1 ! i))) s1
          in (case deliver i arr s2 of
                Inl (e, s3) \<Rightarrow> Inl (e, set_phase i Stopped s3)
              | Inr s3 \<Rightarrow>
                  (let (t, s4) = setTimeout (currentPollDelay (pollers s3 ! i)) s3
                   in Inr ((set_phase i (Scheduled t) s4)\<lparr>pollerSchedule := Some t\<rparr>))))"

definition reply_arrives ::
  "nat \<Rightarrow> js_value list reply \<Rightarrow> polling_connector
     \<Rightarrow> (js_error \<times> polling_connector) + polling_connector" where
  "reply_arrives i r s = (if polling i s then pollerRoutine_resume i r s else Inr s)"

definition settled :: "(js_error \<times> polling_connector) + polling_connector \<Rightarrow> polling_connector" where
  "settled r = (case r of Inl (e, s) \<Rightarrow> s | Inr s \<Rightarrow> s)"

text \<open>One cycle of routine \<open>i\<close>, and one cycle for each reply of a list.\<close>

definition poll_cycle :: "nat \<Rightarrow> js_value list reply \<Rightarrow> polling_connector \<Rightarrow> polling_connector" where
  "poll_cycle i r s = settled (reply_arrives i r (timer_fires i s))"

fun poll_cycles :: "nat \<Rightarrow> js_value list reply list \<Rightarrow> polling_connector \<Rightarrow> polling_connector" where
  "poll_cycles i [] s = s"
| "poll_cycles i (r # rs) s = poll_cycles i rs (poll_cycle i r s)"

text \<open>What the effects show: the cursors sent, the payloads delivered, the delays set.\<close>

fun starts_sent :: "effect list \<Rightarrow> nat list" where
  "starts_sent [] = []"
| "starts_sent (GetMessages u n # es) = n # starts_sent es"
| "starts_sent (e # es) = starts_sent es"

fun delivered :: "effect list \<Rightarrow> js_value list" where
  "delivered [] = []"
| "delivered (ListenerCalled k v # es) = v # delivered es"
| "delivered (e # es) = delivered es"

fun delays_set :: "effect list \<Rightarrow> nat list" where
  "delays_set [] = []"
| "delays_set (SetTimeout t d # es) = d # delays_set es"
| "delays_set (e # es) = delays_set es"

fun gets_sent :: "effect list \<Rightarrow> string list" where
  "gets_sent [] = []"
| "gets_sent (HttpGet u # es) = u # gets_sent es"
| "gets_sent (e # es) = gets_sent es"

text \<open>A polling connector over its life.\<close>

datatype polling_event =
    StartPolling
  | Connected location js_value connect_response
  | TimerFires nat
  | ReplyArrives nat "js_value list reply"
  | PollOnDeviceMsg nat
  | GetConfigCalled
  | GetConfigResumes "js_value reply"

fun polling_step :: "polling_event \<Rightarrow> polling_connector \<Rightarrow> polling_connector" where
  "polling_step StartPolling s = startPolling s"
| "polling_step (Connected loc cfg resp) s = snd (requestDevice_connected loc cfg resp s)"
| "polling_step (TimerFires i) s = timer_fires i s"
| "polling_step (ReplyArrives i r) s = settled (reply_arrives i r s)"
| "polling_step (PollOnDeviceMsg cb) s = poll_onDeviceMsg cb s"
| "polling_step GetConfigCalled s = snd (getConfig_call s)"
| "polling_step (GetConfigResumes r) s = snd (getConfig_resume r s)"

fun polling_run :: "polling_event list \<Rightarrow> polling_connector \<Rightarrow> polling_connector" where
  "polling_run [] s = s"
| "polling_run (e # es) s = polling_run es (polling_step e s)"

section \<open>Vocabulary of the properties\<close>

text \<open>
  Events that leave a pending request as it is: no new request, and of the server's
  messages only \<^verbatim>\<open>config\<close> and \<^verbatim>\<open>device_msg\<close> without an error.
\<close>

fun quiet :: "ws_event \<Rightarrow> bool" where
  "quiet (RequestDevice d) = False"
| "quiet (Message m) = (\<not> has_error m \<and> (has_type ''config'' m \<or> has_type ''device_msg'' m))"
| "quiet e = True"

fun requests_device :: "ws_event \<Rightarrow> bool" where
  "requests_device (RequestDevice d) = True"
| "requests_device e = False"

text \<open>
  An array of messages none of which is \<^verbatim>\<open>null\<close>: the messages endpoint returns objects
  \<^verbatim>\<open>{payload}\<close>.
\<close>

definition well_formed :: "js_value list \<Rightarrow> bool" where
  "well_formed arr = list_all (\<lambda>m. \<not> nullish m) arr"

text \<open>The value of \<^verbatim>\<open>currentPollDelay\<close> after a cycle that began with \<open>d\<close> and got \<open>arr\<close>.\<close>

definition next_delay :: "nat \<Rightarrow> js_value list \<Rightarrow> nat" where
  "next_delay d arr = (if arr = [] then min 60000 (2 * d) else 1000)"

text \<open>The cursor before each batch, from the cursor \<open>k\<close> before the first.\<close>

fun cursors :: "nat \<Rightarrow> js_value list list \<Rightarrow> nat list" where
  "cursors k [] = []"
| "cursors k (b # bs) = k # cursors (k + length b) bs"

text \<open>
  A server that honours the cursor: to the request with \<^verbatim>\<open>start=k\<close> it returned a run of
  its list of messages \<open>log\<close> that begins at position \<open>k\<close>.
\<close>

fun served :: "js_value list \<Rightarrow> nat list \<Rightarrow> js_value list list \<Rightarrow> bool" where
  "served log [] [] = True"
| "served log (k # ks) (b # bs) = (b = take (length b) (drop k log) \<and> served log ks bs)"
| "served log ks bs = False"

text \<open>
  A polling session as the client starts it: a new connector, a listener registered,
  and \<^verbatim>\<open>requestDevice\<close> from the reply of the connect endpoint on.
\<close>

definition session :: "location \<Rightarrow> js_value \<Rightarrow> connect_response \<Rightarrow> nat \<Rightarrow> polling_connector" where
  "session loc cfg response cb =
     snd (requestDevice_connected loc cfg response (poll_onDeviceMsg cb (new_PollingConnector loc)))"

text \<open>The session after one poll cycle for each array of a list, all replies arriving.\<close>

definition polled ::
  "location \<Rightarrow> js_value \<Rightarrow> connect_response \<Rightarrow> nat \<Rightarrow> js_value list list \<Rightarrow> polling_connector" where
  "polled loc cfg response cb batches =
     poll_cycles 0 (map Arrived batches) (session loc cfg response cb)"

text \<open>The delays after each batch, from the delay \<open>d\<close> before the first.\<close>

fun delays_from :: "nat \<Rightarrow> js_value list list \<Rightarrow> nat list" where
  "delays_from d [] = []"
| "delays_from d (b # bs) = next_delay d b # delays_from (next_delay d b) bs"

text \<open>The calls of the callback that one array of messages gives.\<close>

definition calls :: "callback \<Rightarrow> js_value list \<Rightarrow> effect list" where
  "calls cb arr = map (\<lambda>m. call_cb cb (get_prop m ''payload'')) arr"

text \<open>
  Events of a polling connector with no failure from outside: every reply to a poll
  arrives and is an array of messages.
\<close>

fun replies_ok :: "polling_event \<Rightarrow> bool" where
  "replies_ok (ReplyArrives i (Arrived arr)) = well_formed arr"
| "replies_ok (ReplyArrives i (Failed e)) = False"
| "replies_ok e = True"

text \<open>The events that bring a configuration: to the websocket connector, and to the polling one.\<close>

definition stores_config :: "ws_event \<Rightarrow> bool" where
  "stores_config e =
     (case e of Message m \<Rightarrow> has_type ''config'' m \<and> \<not> has_error m | _ \<Rightarrow> False)"

fun config_arrives :: "polling_event \<Rightarrow> bool" where
  "config_arrives (GetConfigResumes (Arrived c)) = True"
| "config_arrives e = False"

text \<open>
  No routine before \<^verbatim>\<open>#pollerSchedule\<close> is set and one from then on; no routine has ended.
\<close>

definition one_routine :: "polling_connector \<Rightarrow> bool" where
  "one_routine s =
     (case pollerSchedule s of None \<Rightarrow> pollers s = [] | Some t \<Rightarrow> length (pollers s) = 1)"

definition alive :: "polling_connector \<Rightarrow> bool" where
  "alive s = list_all (\<lambda>p. phase p \<noteq> Stopped) (pollers s)"

section \<open>The message handler, case by case\<close>

lemma has_error_not_nullish: "has_error m \<Longrightarrow> \<not> nullish m"
  by (cases m) (auto simp: has_error_def nullish_def)

lemma has_type_not_nullish: "has_type t m \<Longrightarrow> \<not> nullish m"
  by (cases m) (auto simp: has_type_def nullish_def)

lemma onWebsocketMessage_error:
  assumes "has_error m"
  shows "onWebsocketMessage m s =
    (case onConnectionFailed s of
       None \<Rightarrow> Inl (NotAFunction, s\<lparr>effects := effects s @ [ConsoleError [Val (get_prop m ''error'')]]\<rparr>)
     | Some p \<Rightarrow> Inr (s\<lparr>promises := settle p (Rejected (Val (get_prop m ''error''))) (promises s),
                      effects := effects s @ [ConsoleError [Val (get_prop m ''error'')],
                                              RejectCalled p (Val (get_prop m ''error''))]\<rparr>))"
  using assms has_error_not_nullish[OF assms]
  by (simp add: onWebsocketMessage_def has_error_def emit_def call_reject_def Let_def split: option.splits)

lemma onWebsocketMessage_config:
  assumes "has_type ''config'' m" "\<not> has_error m"
  shows "onWebsocketMessage m s = Inr (s\<lparr>infraConfig := m\<rparr>)"
  using assms has_type_not_nullish[OF assms(1)]
  by (simp add: onWebsocketMessage_def has_error_def has_type_def)

lemma onWebsocketMessage_device_info:
  assumes "has_type ''device_info'' m" "\<not> has_error m"
  shows "onWebsocketMessage m s =
    (case onDeviceAvailable s of
       Some p \<Rightarrow> Inr (s\<lparr>onDeviceAvailable := None,
                      promises := settle p (Fulfilled (JObj [(''deviceInfo'', get_prop m ''device_info''),
                             (''infraConfig'', infraConfig s)])) (promises s),
                      effects := effects s @ [ResolveCalled p (JObj [(''deviceInfo'', get_prop m ''device_info''),
                             (''infraConfig'', infraConfig s)])]\<rparr>)
     | None \<Rightarrow> Inr (s\<lparr>effects := effects s @ [ConsoleError [Val (JStr ''Received unsolicited device info'')]]\<rparr>))"
  using assms has_type_not_nullish[OF assms(1)]
  by (simp add: onWebsocketMessage_def has_error_def has_type_def emit_def call_resolve_def split: option.splits)

lemma onWebsocketMessage_device_msg:
  assumes "has_type ''device_msg'' m" "\<not> has_error m"
  shows "onWebsocketMessage m s =
     Inr (s\<lparr>effects := effects s @ [call_cb (onDeviceMsgCb s) (get_prop m ''payload'')]\<rparr>)"
  using assms has_type_not_nullish[OF assms(1)]
  by (simp add: onWebsocketMessage_def has_error_def has_type_def emit_def)

lemma onWebsocketMessage_unrecognized:
  assumes "unrecognized m" "\<not> has_error m"
  shows "onWebsocketMessage m s =
    (case onConnectionFailed s of
       None \<Rightarrow> Inl (NotAFunction, s\<lparr>effects := effects s @
                 [ConsoleError [Val (JStr ''Unrecognized message type from server: ''),
                                Val (get_prop m ''message_type'')]]\<rparr>)
     | Some p \<Rightarrow> Inr (s\<lparr>promises := settle p (Rejected (Concat ''Unrecognized message type from server: '' (get_prop m ''message_type''))) (promises s),
                      effects := effects s @
                 [ConsoleError [Val (JStr ''Unrecognized message type from server: ''),
                                Val (get_prop m ''message_type'')],
                  RejectCalled p (Concat ''Unrecognized message type from server: '' (get_prop m ''message_type'')),
                  ConsoleError [Val m]]\<rparr>))"
  using assms
  by (simp add: onWebsocketMessage_def unrecognized_def has_error_def has_type_def emit_def call_reject_def Let_def split: option.splits)

lemma settle_pending:
  "p < length ps \<Longrightarrow> ps ! p = Pending \<Longrightarrow> settle p v ps ! p = v"
  by (simp add: settle_def)

lemma wsSendJson_frame:
  "promises (snd (wsSendJson obj s)) = promises s"
  "onConnectionFailed (snd (wsSendJson obj s)) = onConnectionFailed s"
  "onDeviceAvailable (snd (wsSendJson obj s)) = onDeviceAvailable s"
  "infraConfig (snd (wsSendJson obj s)) = infraConfig s"
  "onDeviceMsgCb (snd (wsSendJson obj s)) = onDeviceMsgCb s"
  by (simp_all add: wsSendJson_def emit_def split: ready_state.splits)

lemma ws_requestDevice_fields:
  "promises (snd (ws_requestDevice d s)) = promises s @ [Pending]"
  "onConnectionFailed (snd (ws_requestDevice d s)) = Some (length (promises s))"
  "onDeviceAvailable (snd (ws_requestDevice d s)) = Some (length (promises s))"
  "infraConfig (snd (ws_requestDevice d s)) = infraConfig s"
  by (simp_all add: ws_requestDevice_def Let_def wsSendJson_frame)

lemma quiet_step:
  assumes "quiet e"
  shows "promises (ws_step e s) = promises s"
    and "onConnectionFailed (ws_step e s) = onConnectionFailed s"
    and "onDeviceAvailable (ws_step e s) = onDeviceAvailable s"
  using assms
  by (cases e; auto simp: ws_sendToDevice_def wsSendJson_frame ws_onDeviceMsg_def after_throw_def
        onWebsocketMessage_config onWebsocketMessage_device_msg)+

lemma quiet_run:
  assumes "list_all quiet es"
  shows "promises (ws_run es s) = promises s \<and>
         onConnectionFailed (ws_run es s) = onConnectionFailed s \<and>
         onDeviceAvailable (ws_run es s) = onDeviceAvailable s"
  using assms
  by (induction es arbitrary: s) (simp_all add: quiet_step)

lemma ws_run_append: "ws_run (es @ fs) s = ws_run fs (ws_run es s)"
  by (induction es arbitrary: s) simp_all

lemma error_after_request:
  assumes "has_error message" and "list_all quiet es"
  shows "promises (ws_run (RequestDevice d # es @ [Message message]) s) ! length (promises s) =
           Rejected (Val (get_prop message ''error''))"
proof -
  define s1 where "s1 = ws_run es (snd (ws_requestDevice d s))"
  have p1: "promises s1 = promises s @ [Pending]"
    and f1: "onConnectionFailed s1 = Some (length (promises s))"
    using quiet_run [OF assms(2), of "snd (ws_requestDevice d s)"]
    by (simp_all add: s1_def ws_requestDevice_fields)
  have "promises (after_throw (onWebsocketMessage message s1)) ! length (promises s) =
          Rejected (Val (get_prop message ''error''))"
    by (simp add: onWebsocketMessage_error [OF assms(1)] f1 p1 after_throw_def settle_pending)
  then show ?thesis
    by (simp add: ws_run_append s1_def)
qed

lemma no_request_step:
  assumes "\<not> requests_device e" and "onConnectionFailed s = None" and "onDeviceAvailable s = None"
  shows "onConnectionFailed (ws_step e s) = None \<and> onDeviceAvailable (ws_step e s) = None \<and>
         promises (ws_step e s) = promises s"
proof (cases e)
  case (Message m)
  then show ?thesis
    using assms(2,3)
    by (simp add: onWebsocketMessage_def after_throw_def emit_def call_cb_def Let_def)
qed (use assms in \<open>simp_all add: ws_sendToDevice_def wsSendJson_frame ws_onDeviceMsg_def\<close>)

lemma no_request_run:
  assumes "list_all (\<lambda>e. \<not> requests_device e) es"
    and "onConnectionFailed s = None" and "onDeviceAvailable s = None"
  shows "onConnectionFailed (ws_run es s) = None \<and> onDeviceAvailable (ws_run es s) = None \<and>
         promises (ws_run es s) = promises s"
  using assms
proof (induction es arbitrary: s)
  case Nil
  then show ?case by simp
next
  case (Cons e es)
  from Cons.prems have e: "\<not> requests_device e" and es: "list_all (\<lambda>e. \<not> requests_device e) es"
    by simp_all
  from no_request_step [OF e Cons.prems(2,3)] Cons.IH [OF es, of "ws_step e s"]
  show ?case by simp
qed

lemma throws_without_continuation:
  assumes "has_error message \<or> unrecognized message" and "onConnectionFailed s = None"
  shows "onWebsocketMessage message s =
           Inl (NotAFunction,
                s\<lparr>effects := effects s @
                     [ConsoleError
                        (if has_error message then [Val (get_prop message ''error'')]
                         else [Val (JStr ''Unrecognized message type from server: ''),
                               Val (get_prop message ''message_type'')])]\<rparr>)"
proof (cases "has_error message")
  case True
  then show ?thesis by (simp add: onWebsocketMessage_error assms(2))
next
  case False
  with assms(1) have "unrecognized message" by simp
  with False show ?thesis by (simp add: onWebsocketMessage_unrecognized assms(2))
qed

section \<open>Claims on the WebsocketConnector\<close>

text \<open>
  C5. A \<^verbatim>\<open>device_msg\<close> message without an error makes the handler call the callback that
  is registered at that moment, once, with \<^verbatim>\<open>message.payload\<close> as it came, and do nothing
  else. The connector \<open>s\<close> is arbitrary: no request made, a request pending, or resolved.
  With no listener registered the callback is the initial one, which logs.
\<close>

theorem device_msg_invokes_callback:
  assumes "has_type ''device_msg'' message" and "\<not> has_error message"
  shows "onWebsocketMessage message s =
           Inr (s\<lparr>effects := effects s @
                  [case onDeviceMsgCb s of
                     Listener k \<Rightarrow> ListenerCalled k (get_prop message ''payload'')
                   | NoListener \<Rightarrow>
                       ConsoleError
                         [Val (JStr ''Received device message without registered listener'')]]\<rparr>)"
  using assms by (simp add: onWebsocketMessage_device_msg call_cb_def split: callback.splits)

theorem device_msg_invokes_callback_witness:
  "has_type ''device_msg'' (JObj [(''message_type'', JStr ''device_msg''), (''payload'', JNum 5)]) \<and>
   \<not> has_error (JObj [(''message_type'', JStr ''device_msg''), (''payload'', JNum 5)]) \<and>
   onDeviceAvailable (ws_onDeviceMsg 1 new_WebsocketConnector) = None \<and>
   onWebsocketMessage (JObj [(''message_type'', JStr ''device_msg''), (''payload'', JNum 5)])
       (ws_onDeviceMsg 1 new_WebsocketConnector) =
     Inr ((ws_onDeviceMsg 1 new_WebsocketConnector)\<lparr>effects := [ListenerCalled 1 (JNum 5)]\<rparr>)"
  using device_msg_invokes_callback
          [of "JObj [(''message_type'', JStr ''device_msg''), (''payload'', JNum 5)]"
              "ws_onDeviceMsg 1 new_WebsocketConnector"]
  by (simp add: has_type_def has_error_def ws_onDeviceMsg_def new_WebsocketConnector_def)

text \<open>
  C4. A message whose \<^verbatim>\<open>error\<close> field is set (the handler's test \<^verbatim>\<open>if (message.error)\<close>)
  gets no normal processing, whatever its type: the configuration, the availability
  continuation and the callback stay as they are, and the only effects are the log of
  the error and the call of the failure continuation. With a failure continuation \<open>p\<close>
  registered the handler returns, having called it with the error, which rejects its
  promise if that is still pending. After \<^verbatim>\<open>requestDevice\<close>, an error \<^verbatim>\<open>"not found"\<close> that
  comes before any \<^verbatim>\<open>device_info\<close> rejects the promise of the request with it.
\<close>

theorem error_message_rejects:
  assumes "has_error message"
  shows "(onConnectionFailed s = Some p \<longrightarrow>
            onWebsocketMessage message s =
              Inr (s\<lparr>promises := settle p (Rejected (Val (get_prop message ''error''))) (promises s),
                     effects := effects s @
                       [ConsoleError [Val (get_prop message ''error'')],
                        RejectCalled p (Val (get_prop message ''error''))]\<rparr>)) \<and>
         (onConnectionFailed s = Some p \<and> p < length (promises s) \<and> promises s ! p = Pending \<longrightarrow>
            promises (after_throw (onWebsocketMessage message s)) ! p =
              Rejected (Val (get_prop message ''error''))) \<and>
         infraConfig (after_throw (onWebsocketMessage message s)) = infraConfig s \<and>
         onDeviceAvailable (after_throw (onWebsocketMessage message s)) = onDeviceAvailable s \<and>
         onDeviceMsgCb (after_throw (onWebsocketMessage message s)) = onDeviceMsgCb s \<and>
         effects (after_throw (onWebsocketMessage message s)) =
           effects s @ ConsoleError [Val (get_prop message ''error'')] #
             (case onConnectionFailed s of
                None \<Rightarrow> []
              | Some q \<Rightarrow> [RejectCalled q (Val (get_prop message ''error''))]) \<and>
         (list_all quiet es \<and> get_prop message ''error'' = JStr ''not found'' \<longrightarrow>
            promises (ws_run (RequestDevice d # es @ [Message message]) s) ! length (promises s) =
              Rejected (Val (JStr ''not found'')))"
  using error_after_request [OF assms, of es d s]
  by (simp add: onWebsocketMessage_error [OF assms] after_throw_def settle_pending
        split: option.splits)

theorem error_message_rejects_witness:
  "has_error (JObj [(''error'', JStr ''not found'')]) \<and>
   list_all quiet [Message (JObj [(''message_type'', JStr ''config'')])] \<and>
   onConnectionFailed (snd (ws_requestDevice (JStr ''cvd-1'') new_WebsocketConnector)) = Some 0 \<and>
   onWebsocketMessage (JObj [(''error'', JStr ''not found'')])
       (snd (ws_requestDevice (JStr ''cvd-1'') new_WebsocketConnector)) =
     Inr ((snd (ws_requestDevice (JStr ''cvd-1'') new_WebsocketConnector))
            \<lparr>promises := [Rejected (Val (JStr ''not found''))],
             effects := [WsSend (JObj [(''message_type'', JStr ''connect''),
                                       (''device_id'', JStr ''cvd-1'')]),
                         ConsoleError [Val (JStr ''not found'')],
                         RejectCalled 0 (Val (JStr ''not found''))]\<rparr>) \<and>
   promises (ws_run [RequestDevice (JStr ''cvd-1''),
                     Message (JObj [(''message_type'', JStr ''config'')]),
                     Message (JObj [(''error'', JStr ''not found'')])] new_WebsocketConnector) ! 0 =
     Rejected (Val (JStr ''not found''))"
  using error_message_rejects
          [of "JObj [(''error'', JStr ''not found'')]"
              "snd (ws_requestDevice (JStr ''cvd-1'') new_WebsocketConnector)" 0]
        error_message_rejects
          [of "JObj [(''error'', JStr ''not found'')]" new_WebsocketConnector 0
              "[Message (JObj [(''message_type'', JStr ''config'')])]" "JStr ''cvd-1''"]
  by (simp add: has_error_def has_type_def new_WebsocketConnector_def ws_requestDevice_def
        wsSendJson_def emit_def settle_def)

text \<open>
  C10. As long as \<^verbatim>\<open>requestDevice\<close> has not been called, whatever else has happened to
  the connector, \<^verbatim>\<open>#futures\<close> has no \<^verbatim>\<open>onConnectionFailed\<close> and no promise exists; a message
  with an error, or one whose type is none of the three the handler knows, then makes
  the handler throw the TypeError of calling \<^verbatim>\<open>undefined\<close>, after the one \<^verbatim>\<open>console.error\<close>
  that precedes the call.
\<close>

theorem handler_throws_before_requestDevice:
  assumes "list_all (\<lambda>e. \<not> requests_device e) es"
    and "has_error message \<or> unrecognized message"
  shows "onConnectionFailed (ws_run es new_WebsocketConnector) = None \<and>
         promises (ws_run es new_WebsocketConnector) = [] \<and>
         onWebsocketMessage message (ws_run es new_WebsocketConnector) =
           Inl (NotAFunction,
                (ws_run es new_WebsocketConnector)
                  \<lparr>effects := effects (ws_run es new_WebsocketConnector) @
                     [ConsoleError
                        (if has_error message then [Val (get_prop message ''error'')]
                         else [Val (JStr ''Unrecognized message type from server: ''),
                               Val (get_prop message ''message_type'')])]\<rparr>)"
proof -
  have "onConnectionFailed (ws_run es new_WebsocketConnector) = None \<and>
        onDeviceAvailable (ws_run es new_WebsocketConnector) = None \<and>
        promises (ws_run es new_WebsocketConnector) = promises new_WebsocketConnector"
    by (rule no_request_run [OF assms(1)]) (simp_all add: new_WebsocketConnector_def)
  then show ?thesis
    using throws_without_continuation [OF assms(2), of "ws_run es new_WebsocketConnector"]
    by (simp add: new_WebsocketConnector_def)
qed

theorem handler_throws_before_requestDevice_witness:
  "list_all (\<lambda>e. \<not> requests_device e)
     [OnDeviceMsg 1, Message (JObj [(''message_type'', JStr ''device_msg'')])] \<and>
   unrecognized (JObj [(''message_type'', JStr ''bye'')]) \<and>
   has_error (JObj [(''error'', JStr ''not found'')]) \<and>
   onWebsocketMessage (JObj [(''message_type'', JStr ''bye'')])
      (ws_run [OnDeviceMsg 1, Message (JObj [(''message_type'', JStr ''device_msg'')])]
         new_WebsocketConnector) =
     Inl (NotAFunction,
          \<lparr>readyState = OPEN, onDeviceAvailable = None, onConnectionFailed = None,
           infraConfig = JUndefined, onDeviceMsgCb = Listener 1, promises = [],
           effects = [ListenerCalled 1 JUndefined,
                      ConsoleError [Val (JStr ''Unrecognized message type from server: ''),
                                    Val (JStr ''bye'')]]\<rparr>) \<and>
   onWebsocketMessage (JObj [(''error'', JStr ''not found'')]) (ws_run [] new_WebsocketConnector) =
     Inl (NotAFunction,
          \<lparr>readyState = OPEN, onDeviceAvailable = None, onConnectionFailed = None,
           infraConfig = JUndefined, onDeviceMsgCb = NoListener, promises = [],
           effects = [ConsoleError [Val (JStr ''not found'')]]\<rparr>)"
  using handler_throws_before_requestDevice
          [of "[OnDeviceMsg 1, Message (JObj [(''message_type'', JStr ''device_msg'')])]"
              "JObj [(''message_type'', JStr ''bye'')]"]
        handler_throws_before_requestDevice [of "[]" "JObj [(''error'', JStr ''not found'')]"]
  by (simp add: unrecognized_def has_error_def has_type_def nullish_def new_WebsocketConnector_def
        ws_onDeviceMsg_def onWebsocketMessage_def after_throw_def emit_def call_cb_def)

lemma config_then_device_info:
  assumes "has_type ''config'' cfg" and "\<not> has_error cfg"
    and "has_type ''device_info'' message" and "\<not> has_error message"
  shows "promises (ws_run [RequestDevice d, Message cfg, Message message] s) ! length (promises s) =
           Fulfilled (JObj [(''deviceInfo'', get_prop message ''device_info''), (''infraConfig'', cfg)])"
  using assms
  by (simp add: onWebsocketMessage_config onWebsocketMessage_device_info after_throw_def
        ws_requestDevice_fields settle_pending)

text \<open>
  C3, as the code has it. A \<^verbatim>\<open>device_info\<close> message without an error, with an availability
  continuation \<open>p\<close> pending: the continuation is called with \<^verbatim>\<open>{deviceInfo, infraConfig}\<close>
  and removed. The call resolves the promise of the request when that promise is still
  pending; a promise that an earlier error or unrecognized message already rejected
  stays rejected. With no continuation pending the message is logged as unsolicited and
  nothing else happens. After \<^verbatim>\<open>requestDevice\<close>, \<^verbatim>\<open>config\<close> and \<^verbatim>\<open>device_info\<close>, the promise
  of the request is fulfilled with the device's info and the stored configuration.
\<close>

theorem device_info_calls_continuation:
  assumes "has_type ''device_info'' message" and "\<not> has_error message"
  shows "(onDeviceAvailable s = Some p \<longrightarrow>
            onWebsocketMessage message s =
              Inr (s\<lparr>onDeviceAvailable := None,
                     promises := settle p (Fulfilled (JObj [(''deviceInfo'', get_prop message ''device_info''),
                                                            (''infraConfig'', infraConfig s)])) (promises s),
                     effects := effects s @
                       [ResolveCalled p (JObj [(''deviceInfo'', get_prop message ''device_info''),
                                               (''infraConfig'', infraConfig s)])]\<rparr>)) \<and>
         (onDeviceAvailable s = Some p \<and> p < length (promises s) \<and> promises s ! p = Pending \<longrightarrow>
            promises (after_throw (onWebsocketMessage message s)) ! p =
              Fulfilled (JObj [(''deviceInfo'', get_prop message ''device_info''),
                               (''infraConfig'', infraConfig s)])) \<and>
         (onDeviceAvailable s = None \<longrightarrow>
            onWebsocketMessage message s =
              Inr (s\<lparr>effects := effects s @
                      [ConsoleError [Val (JStr ''Received unsolicited device info'')]]\<rparr>)) \<and>
         onDeviceAvailable (after_throw (onWebsocketMessage message s)) = None \<and>
         (has_type ''config'' cfg \<and> \<not> has_error cfg \<longrightarrow>
            promises (ws_run [RequestDevice d, Message cfg, Message message] s) ! length (promises s) =
              Fulfilled (JObj [(''deviceInfo'', get_prop message ''device_info''),
                               (''infraConfig'', cfg)]))"
  using config_then_device_info [OF _ _ assms, of cfg d s]
  by (simp add: onWebsocketMessage_device_info [OF assms] after_throw_def settle_pending
        split: option.splits)

theorem device_info_calls_continuation_witness:
  "has_type ''device_info'' (JObj [(''message_type'', JStr ''device_info''), (''device_info'', JStr ''phone'')]) \<and>
   \<not> has_error (JObj [(''message_type'', JStr ''device_info''), (''device_info'', JStr ''phone'')]) \<and>
   has_type ''config'' (JObj [(''message_type'', JStr ''config''), (''ice_servers'', JArr [])]) \<and>
   \<not> has_error (JObj [(''message_type'', JStr ''config''), (''ice_servers'', JArr [])]) \<and>
   promises (ws_run [RequestDevice (JStr ''cvd-1''),
                     Message (JObj [(''message_type'', JStr ''config''), (''ice_servers'', JArr [])]),
                     Message (JObj [(''message_type'', JStr ''device_info''), (''device_info'', JStr ''phone'')])]
               new_WebsocketConnector) ! 0 =
     Fulfilled (JObj [(''deviceInfo'', JStr ''phone''),
                      (''infraConfig'', JObj [(''message_type'', JStr ''config''), (''ice_servers'', JArr [])])]) \<and>
   onWebsocketMessage (JObj [(''message_type'', JStr ''device_info''), (''device_info'', JStr ''phone'')])
       new_WebsocketConnector =
     Inr (new_WebsocketConnector
            \<lparr>effects := [ConsoleError [Val (JStr ''Received unsolicited device info'')]]\<rparr>)"
  using device_info_calls_continuation
          [of "JObj [(''message_type'', JStr ''device_info''), (''device_info'', JStr ''phone'')]"
              new_WebsocketConnector 0
              "JObj [(''message_type'', JStr ''config''), (''ice_servers'', JArr [])]" "JStr ''cvd-1''"]
  by (simp add: has_type_def has_error_def new_WebsocketConnector_def)

text \<open>
  The claim as stated, that the promise resolves whenever the continuation is pending,
  fails after an error: the error rejected the promise and left the availability
  continuation in place, so the later \<^verbatim>\<open>device_info\<close> finds it pending, and the promise
  stays rejected.
\<close>

theorem device_info_after_error_counterexample:
  "onDeviceAvailable
     (ws_run [RequestDevice (JStr ''cvd-1''), Message (JObj [(''error'', JStr ''not found'')])]
        new_WebsocketConnector) = Some 0 \<and>
   has_type ''device_info'' (JObj [(''message_type'', JStr ''device_info''), (''device_info'', JStr ''phone'')]) \<and>
   \<not> has_error (JObj [(''message_type'', JStr ''device_info''), (''device_info'', JStr ''phone'')]) \<and>
   promises
     (ws_run [RequestDevice (JStr ''cvd-1''), Message (JObj [(''error'', JStr ''not found'')]),
              Message (JObj [(''message_type'', JStr ''device_info''), (''device_info'', JStr ''phone'')])]
        new_WebsocketConnector) = [Rejected (Val (JStr ''not found''))]"
  by (simp add: has_type_def has_error_def new_WebsocketConnector_def ws_requestDevice_def
        wsSendJson_def emit_def onWebsocketMessage_def call_reject_def call_resolve_def
        after_throw_def settle_def nullish_def Let_def)

text \<open>
  C6. On a connector whose \<^verbatim>\<open>requestDevice\<close> was never called, and on one whose request
  is still pending, \<^verbatim>\<open>sendToDevice\<close> writes the \<^verbatim>\<open>forward\<close> message to the socket and its
  promise is fulfilled with \<^verbatim>\<open>undefined\<close>: it is not rejected.
\<close>

theorem ws_sendToDevice_without_request_fulfils:
  "ws_sendToDevice msg new_WebsocketConnector =
     (Fulfilled JUndefined,
      new_WebsocketConnector
        \<lparr>effects := [WsSend (JObj [(''message_type'', JStr ''forward''), (''payload'', msg)])]\<rparr>) \<and>
   promises (snd (ws_requestDevice d new_WebsocketConnector)) = [Pending] \<and>
   fst (ws_sendToDevice msg (snd (ws_requestDevice d new_WebsocketConnector))) = Fulfilled JUndefined"
  by (simp add: ws_sendToDevice_def wsSendJson_def emit_def new_WebsocketConnector_def
        ws_requestDevice_def Let_def)

section \<open>One cycle of the polling loop, and many\<close>

lemma deliver_ok:
  assumes "well_formed arr" and "i < length (pollers s)"
  shows "deliver i arr s =
           Inr (s\<lparr>pollers := (if arr = [] then pollers s
                               else (pollers s)[i := (pollers s ! i)\<lparr>currentPollDelay := 1000\<rparr>]),
                  history := history s @ calls (listener s) arr\<rparr>)"
  using assms
proof (induction arr arbitrary: s)
  case Nil
  then show ?case by (simp add: calls_def)
next
  case (Cons m ms)
  then show ?case
    by (simp add: well_formed_def set_delay_def did_def calls_def)
qed

lemma timer_fires_waiting:
  assumes "waiting i s"
  shows "timer_fires i s =
           s\<lparr>pollers := (pollers s)[i := (pollers s ! i)\<lparr>phase := Polling\<rparr>],
             history := history s @ [GetMessages (messagesUrl s) (messagesReceived s)]\<rparr>"
  using assms by (simp add: timer_fires_def set_phase_def did_def)

lemma polling_after_fire: "waiting i s \<Longrightarrow> polling i (timer_fires i s)"
  by (simp add: timer_fires_waiting polling_def waiting_def)

lemma reply_arrives_ok:
  assumes "polling i s" and "well_formed arr"
  shows "reply_arrives i (Arrived arr) s =
           Inr (s\<lparr>messagesReceived := messagesReceived s + length arr,
                  pollerSchedule := Some (nextTimer s),
                  pollers := (pollers s)[i := (pollers s ! i)
                                \<lparr>currentPollDelay := next_delay (currentPollDelay (pollers s ! i)) arr,
                                 phase := Scheduled (nextTimer s)\<rparr>],
                  nextTimer := nextTimer s + 1,
                  history := history s @ calls (listener s) arr @
                     [SetTimeout (nextTimer s) (next_delay (currentPollDelay (pollers s ! i)) arr)]\<rparr>)"
proof -
  from assms(1) have i: "i < length (pollers s)"
    by (simp add: polling_def)
  define s2 where "s2 = set_delay i (min 60000 (2 * currentPollDelay (pollers s ! i)))
                          (s\<lparr>messagesReceived := messagesReceived s + length arr\<rparr>)"
  have i2: "i < length (pollers s2)" using i by (simp add: s2_def set_delay_def)
  have "reply_arrives i (Arrived arr) s =
          (case deliver i arr s2 of
             Inl (e, s3) \<Rightarrow> Inl (e, set_phase i Stopped s3)
           | Inr s3 \<Rightarrow>
               (let (t, s4) = setTimeout (currentPollDelay (pollers s3 ! i)) s3
                in Inr ((set_phase i (Scheduled t) s4)\<lparr>pollerSchedule := Some t\<rparr>)))"
    using assms(1) by (simp add: reply_arrives_def pollerRoutine_resume_def Let_def s2_def)
  also have "\<dots> =
           Inr (s\<lparr>messagesReceived := messagesReceived s + length arr,
                  pollerSchedule := Some (nextTimer s),
                  pollers := (pollers s)[i := (pollers s ! i)
                                \<lparr>currentPollDelay := next_delay (currentPollDelay (pollers s ! i)) arr,
                                 phase := Scheduled (nextTimer s)\<rparr>],
                  nextTimer := nextTimer s + 1,
                  history := history s @ calls (listener s) arr @
                     [SetTimeout (nextTimer s) (next_delay (currentPollDelay (pollers s ! i)) arr)]\<rparr>)"
    unfolding deliver_ok [OF assms(2) i2]
    using i
    by (simp add: s2_def set_delay_def set_phase_def setTimeout_def did_def next_delay_def
          calls_def)
  finally show ?thesis .
qed

lemma poll_cycle_ok:
  assumes "waiting i s" and "well_formed arr"
  shows "poll_cycle i (Arrived arr) s =
           s\<lparr>messagesReceived := messagesReceived s + length arr,
             pollerSchedule := Some (nextTimer s),
             pollers := (pollers s)[i := (pollers s ! i)
                           \<lparr>currentPollDelay := next_delay (currentPollDelay (pollers s ! i)) arr,
                            phase := Scheduled (nextTimer s)\<rparr>],
             nextTimer := nextTimer s + 1,
             history := history s @ GetMessages (messagesUrl s) (messagesReceived s) #
                calls (listener s) arr @
                [SetTimeout (nextTimer s) (next_delay (currentPollDelay (pollers s ! i)) arr)]\<rparr>"
proof -
  from assms(1) have i: "i < length (pollers s)" by (simp add: waiting_def)
  show ?thesis
    unfolding poll_cycle_def reply_arrives_ok [OF polling_after_fire [OF assms(1)] assms(2)]
    using i by (simp add: timer_fires_waiting [OF assms(1)] settled_def)
qed

lemma starts_sent_append: "starts_sent (xs @ ys) = starts_sent xs @ starts_sent ys"
  by (induction xs rule: starts_sent.induct) simp_all

lemma delivered_append: "delivered (xs @ ys) = delivered xs @ delivered ys"
  by (induction xs rule: delivered.induct) simp_all

lemma delays_set_append: "delays_set (xs @ ys) = delays_set xs @ delays_set ys"
  by (induction xs rule: delays_set.induct) simp_all

lemma starts_sent_calls: "starts_sent (calls cb arr) = []"
  by (cases cb; induction arr) (simp_all add: calls_def call_cb_def)

lemma delays_set_calls: "delays_set (calls cb arr) = []"
  by (cases cb; induction arr) (simp_all add: calls_def call_cb_def)

lemma delivered_calls:
  "delivered (calls cb arr) =
     (case cb of NoListener \<Rightarrow> [] | Listener k \<Rightarrow> map (\<lambda>m. get_prop m ''payload'') arr)"
  by (cases cb; induction arr) (simp_all add: calls_def call_cb_def)

lemma calls_append: "calls cb (xs @ ys) = calls cb xs @ calls cb ys"
  by (simp add: calls_def)

lemma poll_cycles_ok:
  assumes "waiting i s" and "list_all well_formed bs"
  shows "waiting i (poll_cycles i (map Arrived bs) s) \<and>
         messagesReceived (poll_cycles i (map Arrived bs) s) = messagesReceived s + length (concat bs) \<and>
         listener (poll_cycles i (map Arrived bs) s) = listener s \<and>
         starts_sent (history (poll_cycles i (map Arrived bs) s)) =
           starts_sent (history s) @ cursors (messagesReceived s) bs \<and>
         delivered (history (poll_cycles i (map Arrived bs) s)) =
           delivered (history s) @ delivered (calls (listener s) (concat bs))"
  using assms
proof (induction bs arbitrary: s)
  case Nil
  then show ?case by (simp add: calls_def)
next
  case (Cons b bs)
  from Cons.prems have b: "well_formed b" and bs: "list_all well_formed bs" by simp_all
  define s1 where "s1 = poll_cycle i (Arrived b) s"
  note c = poll_cycle_ok [OF Cons.prems(1) b, folded s1_def]
  have w1: "waiting i s1"
    using Cons.prems(1) by (simp add: c waiting_def)
  have f1: "messagesReceived s1 = messagesReceived s + length b" "listener s1 = listener s"
    "starts_sent (history s1) = starts_sent (history s) @ [messagesReceived s]"
    "delivered (history s1) = delivered (history s) @ delivered (calls (listener s) b)"
    by (simp_all add: c starts_sent_append starts_sent_calls delivered_append)
  from Cons.IH [OF w1 bs] show ?case
    by (simp add: s1_def [symmetric] f1 calls_append delivered_append)
qed

lemma cursors_sums:
  "cursors k bs = map (\<lambda>n. k + sum_list (map length (take n bs))) [0..<length bs]"
proof (induction bs arbitrary: k)
  case Nil
  then show ?case by simp
next
  case (Cons b bs)
  have "[0..<length (b # bs)] = 0 # map Suc [0..<length bs]"
    by (simp add: upt_conv_Cons map_Suc_upt del: upt_Suc)
  then show ?case
    by (simp add: Cons.IH comp_def add.assoc del: upt_Suc)
qed

lemma served_concat:
  "served log (cursors k bs) bs \<Longrightarrow> concat bs = take (length (concat bs)) (drop k log)"
proof (induction bs arbitrary: k)
  case Nil
  then show ?case by simp
next
  case (Cons b bs)
  from Cons.prems have b: "b = take (length b) (drop k log)"
    and r: "served log (cursors (k + length b) bs) bs" by simp_all
  from Cons.IH [OF r] have t: "concat bs = take (length (concat bs)) (drop (k + length b) log)" .
  have "take (length b + length (concat bs)) (drop k log) =
          take (length b) (drop k log) @ take (length (concat bs)) (drop (length b) (drop k log))"
    by (simp add: take_add)
  also have "\<dots> = b @ concat bs"
    using b t by (simp add: add.commute)
  finally show ?case by simp
qed

lemma session_fields:
  "waiting 0 (session loc cfg response cb)"
  "messagesReceived (session loc cfg response cb) = 0"
  "listener (session loc cfg response cb) = Listener cb"
  "history (session loc cfg response cb) = [SetTimeout 1 1000]"
  by (simp_all add: session_def requestDevice_connected_def startPolling_def setTimeout_def
        did_def poll_onDeviceMsg_def new_PollingConnector_def waiting_def Let_def)

lemma poll_cycles_delays:
  assumes "waiting i s" and "list_all well_formed bs"
  shows "delays_set (history (poll_cycles i (map Arrived bs) s)) =
           delays_set (history s) @ delays_from (currentPollDelay (pollers s ! i)) bs"
  using assms
proof (induction bs arbitrary: s)
  case Nil
  then show ?case by simp
next
  case (Cons b bs)
  from Cons.prems have b: "well_formed b" and bs: "list_all well_formed bs" by simp_all
  from Cons.prems(1) have i: "i < length (pollers s)" by (simp add: waiting_def)
  define s1 where "s1 = poll_cycle i (Arrived b) s"
  note c = poll_cycle_ok [OF Cons.prems(1) b, folded s1_def]
  have w1: "waiting i s1"
    using Cons.prems(1) by (simp add: c waiting_def)
  have f1: "currentPollDelay (pollers s1 ! i) = next_delay (currentPollDelay (pollers s ! i)) b"
    "delays_set (history s1) =
       delays_set (history s) @ [next_delay (currentPollDelay (pollers s ! i)) b]"
    using i by (simp_all add: c delays_set_append delays_set_calls)
  from Cons.IH [OF w1 bs] show ?case
    by (simp add: s1_def [symmetric] f1)
qed

lemma delays_from_nth:
  "n < length bs \<Longrightarrow>
     (d # delays_from d bs) ! Suc n = next_delay ((d # delays_from d bs) ! n) (bs ! n)"
proof (induction bs arbitrary: d n)
  case Nil
  then show ?case by simp
next
  case (Cons b bs)
  show ?case
  proof (cases n)
    case 0
    then show ?thesis by simp
  next
    case (Suc m)
    with Cons.prems have "m < length bs" by simp
    from Cons.IH [OF this, of "next_delay d b"] show ?thesis by (simp add: Suc)
  qed
qed

lemma length_delays_from: "length (delays_from d bs) = length bs"
  by (induction bs arbitrary: d) simp_all

lemma session_delay: "currentPollDelay (pollers (session loc cfg response cb) ! 0) = 1000"
  by (simp add: session_def requestDevice_connected_def startPolling_def setTimeout_def
        did_def poll_onDeviceMsg_def new_PollingConnector_def Let_def)

lemma session_delays:
  assumes "list_all well_formed bs"
  shows "delays_set (history (poll_cycles 0 (map Arrived bs) (session loc cfg response cb))) =
           1000 # delays_from 1000 bs"
  by (simp add: poll_cycles_delays [OF session_fields(1) assms] session_fields(4) session_delay)

lemma deliver_bad:
  assumes "\<not> well_formed arr" and "i < length (pollers s)"
  shows "\<exists>s'. deliver i arr s = Inl (CannotReadProperty, s') \<and>
              history s' = history s @ calls (listener s) (takeWhile (\<lambda>m. \<not> nullish m) arr) \<and>
              length (pollers s') = length (pollers s) \<and>
              messagesReceived s' = messagesReceived s \<and> listener s' = listener s"
  using assms
proof (induction arr arbitrary: s)
  case Nil
  then show ?case by (simp add: well_formed_def)
next
  case (Cons m ms)
  show ?case
  proof (cases "nullish m")
    case True
    then show ?thesis by (simp add: calls_def)
  next
    case False
    define s1 where "s1 = set_delay i 1000 (did (call_cb (listener s) (get_prop m ''payload'')) s)"
    have s1: "length (pollers s1) = length (pollers s)" "listener s1 = listener s"
      "messagesReceived s1 = messagesReceived s"
      "history s1 = history s @ [call_cb (listener s) (get_prop m ''payload'')]"
      by (simp_all add: s1_def set_delay_def did_def)
    from Cons.prems False have "\<not> well_formed ms" by (simp add: well_formed_def)
    from Cons.IH [OF this, of s1] Cons.prems(2) s1 False show ?thesis
      by (auto simp: s1_def [symmetric] calls_def)
  qed
qed

lemma poll_cycle_bad:
  assumes "waiting i s" and "\<not> well_formed arr"
  shows "messagesReceived (poll_cycle i (Arrived arr) s) = messagesReceived s + length arr \<and>
         history (poll_cycle i (Arrived arr) s) =
           history s @ GetMessages (messagesUrl s) (messagesReceived s) #
             calls (listener s) (takeWhile (\<lambda>m. \<not> nullish m) arr) \<and>
         \<not> waiting i (poll_cycle i (Arrived arr) s) \<and> \<not> polling i (poll_cycle i (Arrived arr) s)"
proof -
  from assms(1) have i: "i < length (pollers s)" by (simp add: waiting_def)
  define s0 where "s0 = timer_fires i s"
  have p0: "polling i s0" unfolding s0_def by (rule polling_after_fire [OF assms(1)])
  have f0: "history s0 = history s @ [GetMessages (messagesUrl s) (messagesReceived s)]"
    "messagesReceived s0 = messagesReceived s" "listener s0 = listener s"
    "length (pollers s0) = length (pollers s)"
    by (simp_all add: s0_def timer_fires_waiting [OF assms(1)])
  define s2 where "s2 = set_delay i (min 60000 (2 * currentPollDelay (pollers s0 ! i)))
                          (s0\<lparr>messagesReceived := messagesReceived s0 + length arr\<rparr>)"
  have f2: "history s2 = history s0" "messagesReceived s2 = messagesReceived s0 + length arr"
    "listener s2 = listener s0" "length (pollers s2) = length (pollers s0)"
    by (simp_all add: s2_def set_delay_def)
  from deliver_bad [OF assms(2), of i s2] i f0 f2
  obtain s3 where d: "deliver i arr s2 = Inl (CannotReadProperty, s3)"
    and f3: "history s3 = history s2 @ calls (listener s2) (takeWhile (\<lambda>m. \<not> nullish m) arr)"
      "length (pollers s3) = length (pollers s2)" "messagesReceived s3 = messagesReceived s2"
    by auto
  have "poll_cycle i (Arrived arr) s = set_phase i Stopped s3"
    using p0 d
    by (simp add: poll_cycle_def s0_def [symmetric] reply_arrives_def pollerRoutine_resume_def
          Let_def s2_def [symmetric] settled_def)
  then show ?thesis
    using i f0 f2 f3
    by (simp add: set_phase_def waiting_def polling_def)
qed

lemma dead_cycles:
  assumes "\<not> waiting i s" and "\<not> polling i s"
  shows "poll_cycles i rs s = s"
  using assms
  by (induction rs) (simp_all add: poll_cycle_def timer_fires_def reply_arrives_def settled_def)

lemma delivered_calls_prefix:
  "prefix (delivered (calls cb (takeWhile P b))) (delivered (calls cb (b @ c)))"
proof -
  have "prefix (takeWhile P b) (b @ c)"
    by (metis prefix_append takeWhile_dropWhile_id prefixI)
  then obtain zs where "b @ c = takeWhile P b @ zs" by (auto simp: prefix_def)
  then show ?thesis
    by (simp add: calls_append delivered_append)
qed

lemma poll_cycles_any:
  assumes "waiting i s"
  shows "prefix (starts_sent (history (poll_cycles i (map Arrived bs) s)))
           (starts_sent (history s) @ cursors (messagesReceived s) bs) \<and>
         prefix (delivered (history (poll_cycles i (map Arrived bs) s)))
           (delivered (history s) @ delivered (calls (listener s) (concat bs)))"
  using assms
proof (induction bs arbitrary: s)
  case Nil
  then show ?case by simp
next
  case (Cons b bs)
  show ?case
  proof (cases "well_formed b")
    case True
    define s1 where "s1 = poll_cycle i (Arrived b) s"
    note c = poll_cycle_ok [OF Cons.prems True, folded s1_def]
    have w1: "waiting i s1"
      using Cons.prems by (simp add: c waiting_def)
    have f1: "messagesReceived s1 = messagesReceived s + length b" "listener s1 = listener s"
      "starts_sent (history s1) = starts_sent (history s) @ [messagesReceived s]"
      "delivered (history s1) = delivered (history s) @ delivered (calls (listener s) b)"
      by (simp_all add: c starts_sent_append starts_sent_calls delivered_append)
    from Cons.IH [OF w1] show ?thesis
      by (simp add: s1_def [symmetric] f1 calls_append delivered_append)
  next
    case False
    note c = poll_cycle_bad [OF Cons.prems False]
    from c have dead: "poll_cycles i (map Arrived bs) (poll_cycle i (Arrived b) s) =
                         poll_cycle i (Arrived b) s"
      by (simp add: dead_cycles)
    show ?thesis
      using delivered_calls_prefix [of "listener s" "\<lambda>m. \<not> nullish m" b "concat bs"]
      by (simp add: dead c starts_sent_append starts_sent_calls delivered_append)
  qed
qed

text \<open>
  C1. In a polling session, for every sequence of arrays that the polls return: the
  cursors sent are, in order, sums of the lengths of the arrays returned before, and
  the payloads handed to the listener are payloads of the arrays in order, none twice
  (both lists are prefixes: a \<^verbatim>\<open>null\<close> element ends the loop). When no element is \<^verbatim>\<open>null\<close>,
  every poll takes place: the cursor sent with poll \<open>n + 1\<close> is the sum of the lengths of
  the arrays of polls \<open>1..n\<close>, the cursor after the last is the sum of all, and the
  listener got every payload once. So when the server answered each request with a run
  of its messages from the cursor of that request, what was delivered is the first
  \<^verbatim>\<open>#messagesReceived\<close> messages of the server.
\<close>

theorem cursor_is_sum_of_batches:
  "prefix (starts_sent (history (polled loc cfg response cb batches)))
     (map (\<lambda>n. sum_list (map length (take n batches))) [0..<length batches]) \<and>
   prefix (delivered (history (polled loc cfg response cb batches)))
     (map (\<lambda>m. get_prop m ''payload'') (concat batches)) \<and>
   (list_all well_formed batches \<longrightarrow>
      starts_sent (history (polled loc cfg response cb batches)) =
        map (\<lambda>n. sum_list (map length (take n batches))) [0..<length batches] \<and>
      messagesReceived (polled loc cfg response cb batches) = sum_list (map length batches) \<and>
      delivered (history (polled loc cfg response cb batches)) =
        map (\<lambda>m. get_prop m ''payload'') (concat batches) \<and>
      (served log (starts_sent (history (polled loc cfg response cb batches))) batches \<longrightarrow>
         delivered (history (polled loc cfg response cb batches)) =
           map (\<lambda>m. get_prop m ''payload'')
             (take (messagesReceived (polled loc cfg response cb batches)) log)))"
proof -
  let ?R = "polled loc cfg response cb batches"
  have sums: "cursors 0 batches =
                map (\<lambda>n. sum_list (map length (take n batches))) [0..<length batches]"
    by (simp add: cursors_sums)
  from poll_cycles_any [of 0 "session loc cfg response cb" batches, OF session_fields(1)]
  have any: "prefix (starts_sent (history ?R))
               (map (\<lambda>n. sum_list (map length (take n batches))) [0..<length batches])"
    "prefix (delivered (history ?R)) (map (\<lambda>m. get_prop m ''payload'') (concat batches))"
    by (simp_all add: polled_def session_fields delivered_calls sums)
  have exact: "starts_sent (history ?R) =
        map (\<lambda>n. sum_list (map length (take n batches))) [0..<length batches] \<and>
      messagesReceived ?R = sum_list (map length batches) \<and>
      delivered (history ?R) = map (\<lambda>m. get_prop m ''payload'') (concat batches) \<and>
      (served log (starts_sent (history ?R)) batches \<longrightarrow>
         delivered (history ?R) =
           map (\<lambda>m. get_prop m ''payload'') (take (messagesReceived ?R) log))"
    if wf: "list_all well_formed batches"
  proof -
    note r = poll_cycles_ok [OF session_fields(1) wf, of loc cfg response cb, folded polled_def]
    have st: "starts_sent (history ?R) = cursors 0 batches"
      using r by (simp add: session_fields)
    have mr: "messagesReceived ?R = length (concat batches)"
      using r by (simp add: session_fields)
    have dl: "delivered (history ?R) = map (\<lambda>m. get_prop m ''payload'') (concat batches)"
      using r by (simp add: session_fields delivered_calls)
    have sv: "delivered (history ?R) =
                map (\<lambda>m. get_prop m ''payload'') (take (messagesReceived ?R) log)"
      if "served log (starts_sent (history ?R)) batches"
    proof -
      from that have "served log (cursors 0 batches) batches" by (simp only: st)
      from served_concat [OF this]
      have "concat batches = take (length (concat batches)) log" by simp
      then show ?thesis by (simp only: dl mr)
    qed
    from st mr dl sv sums show ?thesis
      by (simp only: length_concat) blast
  qed
  from any exact show ?thesis by blast
qed

theorem cursor_is_sum_of_batches_witness:
  "list_all well_formed [[JObj [(''payload'', JNum 1)], JObj [(''payload'', JNum 2)]], [],
                         [JObj [(''payload'', JNum 3)]]] \<and>
   starts_sent (history (polled \<lparr>protocol = ''https:'', host = ''localhost:1443''\<rparr> JNull
         \<lparr>connection_id = ''7'', device_info = JNull\<rparr> 1
         [[JObj [(''payload'', JNum 1)], JObj [(''payload'', JNum 2)]], [],
          [JObj [(''payload'', JNum 3)]]])) = [0, 2, 2] \<and>
   messagesReceived (polled \<lparr>protocol = ''https:'', host = ''localhost:1443''\<rparr> JNull
         \<lparr>connection_id = ''7'', device_info = JNull\<rparr> 1
         [[JObj [(''payload'', JNum 1)], JObj [(''payload'', JNum 2)]], [],
          [JObj [(''payload'', JNum 3)]]]) = 3 \<and>
   delivered (history (polled \<lparr>protocol = ''https:'', host = ''localhost:1443''\<rparr> JNull
         \<lparr>connection_id = ''7'', device_info = JNull\<rparr> 1
         [[JObj [(''payload'', JNum 1)], JObj [(''payload'', JNum 2)]], [],
          [JObj [(''payload'', JNum 3)]]])) = [JNum 1, JNum 2, JNum 3] \<and>
   served [JObj [(''payload'', JNum 1)], JObj [(''payload'', JNum 2)], JObj [(''payload'', JNum 3)],
           JObj [(''payload'', JNum 4)]] [0, 2, 2]
     [[JObj [(''payload'', JNum 1)], JObj [(''payload'', JNum 2)]], [],
      [JObj [(''payload'', JNum 3)]]]"
  using cursor_is_sum_of_batches
          [of "\<lparr>protocol = ''https:'', host = ''localhost:1443''\<rparr>" JNull
              "\<lparr>connection_id = ''7'', device_info = JNull\<rparr>" 1
              "[[JObj [(''payload'', JNum 1)], JObj [(''payload'', JNum 2)]], [],
                [JObj [(''payload'', JNum 3)]]]"
              "[JObj [(''payload'', JNum 1)], JObj [(''payload'', JNum 2)],
                JObj [(''payload'', JNum 3)], JObj [(''payload'', JNum 4)]]"]
  by (simp add: well_formed_def nullish_def upt_rec)

text \<open>
  C2. After a poll that returned messages (none \<^verbatim>\<open>null\<close>), whatever the connector's state,
  the next timer is set with 1000; after a poll that returned none, with the minimum of
  60000 and twice the routine's delay. Over a session: the first timer is set with 1000,
  and the timer set after poll \<open>n + 1\<close> with 1000 when that poll returned a message, and
  else with the minimum of 60000 and twice the delay of the timer before it. Five empty
  polls in a row wait 1000, 2000, 4000, 8000 and 16000, and the timer after the fifth is
  set with 32000.
\<close>

theorem backoff_delay:
  "(polling i s \<and> well_formed arr \<longrightarrow>
      delays_set (history (settled (reply_arrives i (Arrived arr) s))) =
        delays_set (history s) @
          [if arr = [] then min 60000 (2 * currentPollDelay (pollers s ! i)) else 1000] \<and>
      waiting i (settled (reply_arrives i (Arrived arr) s))) \<and>
   (list_all well_formed batches \<longrightarrow>
      length (delays_set (history (polled loc cfg response cb batches))) = Suc (length batches) \<and>
      delays_set (history (polled loc cfg response cb batches)) ! 0 = 1000 \<and>
      (\<forall>n<length batches.
         delays_set (history (polled loc cfg response cb batches)) ! Suc n =
           (if batches ! n = []
            then min 60000 (2 * delays_set (history (polled loc cfg response cb batches)) ! n)
            else 1000))) \<and>
   delays_set (history (polled loc cfg response cb [[], [], [], [], []])) =
     [1000, 2000, 4000, 8000, 16000, 32000]"
proof -
  have one: "delays_set (history (settled (reply_arrives i (Arrived arr) s))) =
        delays_set (history s) @
          [if arr = [] then min 60000 (2 * currentPollDelay (pollers s ! i)) else 1000] \<and>
      waiting i (settled (reply_arrives i (Arrived arr) s))"
    if "polling i s" and "well_formed arr"
    using that
    by (simp add: reply_arrives_ok settled_def delays_set_append delays_set_calls next_delay_def
          waiting_def polling_def)
  have run: "length (delays_set (history (polled loc cfg response cb batches))) =
               Suc (length batches) \<and>
      delays_set (history (polled loc cfg response cb batches)) ! 0 = 1000 \<and>
      (\<forall>n<length batches.
         delays_set (history (polled loc cfg response cb batches)) ! Suc n =
           (if batches ! n = []
            then min 60000 (2 * delays_set (history (polled loc cfg response cb batches)) ! n)
            else 1000))"
    if wf: "list_all well_formed batches"
  proof -
    let ?ds = "delays_set (history (polled loc cfg response cb batches))"
    have ds: "?ds = 1000 # delays_from 1000 batches"
      unfolding polled_def by (rule session_delays [OF wf])
    have a: "length ?ds = Suc (length batches)"
      by (simp add: ds length_delays_from)
    have b: "?ds ! 0 = 1000"
      by (simp add: ds)
    have c: "\<forall>n<length batches.
               ?ds ! Suc n = (if batches ! n = [] then min 60000 (2 * ?ds ! n) else 1000)"
      unfolding ds using delays_from_nth [of _ batches 1000]
      by (simp only: next_delay_def) blast
    from a b c show ?thesis by blast
  qed
  have five: "list_all well_formed [[], [], [], [], []]"
    by (simp add: well_formed_def)
  have d: "delays_set (history (polled loc cfg response cb [[], [], [], [], []])) =
             [1000, 2000, 4000, 8000, 16000, 32000]"
    using session_delays [OF five, of loc cfg response cb, folded polled_def]
    by (simp add: next_delay_def)
  from one run d show ?thesis by blast
qed

theorem backoff_delay_witness:
  "list_all well_formed [[], [JObj [(''payload'', JStr ''offer'')]], []] \<and>
   delays_set (history (polled \<lparr>protocol = ''https:'', host = ''localhost:1443''\<rparr> JNull
         \<lparr>connection_id = ''7'', device_info = JNull\<rparr> 1
         [[], [JObj [(''payload'', JStr ''offer'')]], []])) = [1000, 2000, 1000, 2000] \<and>
   polling 0 (timer_fires 0 (session \<lparr>protocol = ''https:'', host = ''localhost:1443''\<rparr> JNull
         \<lparr>connection_id = ''7'', device_info = JNull\<rparr> 1)) \<and>
   delays_set (history (polled \<lparr>protocol = ''https:'', host = ''localhost:1443''\<rparr> JNull
         \<lparr>connection_id = ''7'', device_info = JNull\<rparr> 1 [[], [], [], [], []])) =
     [1000, 2000, 4000, 8000, 16000, 32000]"
proof -
  let ?loc = "\<lparr>protocol = ''https:'', host = ''localhost:1443''\<rparr>"
  let ?resp = "\<lparr>connection_id = ''7'', device_info = JNull\<rparr>"
  have wf: "list_all well_formed [[], [JObj [(''payload'', JStr ''offer'')]], []]"
    by (simp add: well_formed_def nullish_def)
  have p: "polling 0 (timer_fires 0 (session ?loc JNull ?resp 1))"
    by (rule polling_after_fire) (rule session_fields)
  note th = backoff_delay
              [of 0 "timer_fires 0 (session ?loc JNull ?resp 1)" "[]"
                  "[[], [JObj [(''payload'', JStr ''offer'')]], []]" ?loc JNull ?resp 1]
  have mid: "delays_set (history (polled ?loc JNull ?resp 1
               [[], [JObj [(''payload'', JStr ''offer'')]], []])) = [1000, 2000, 1000, 2000]"
    using session_delays [OF wf, of ?loc JNull ?resp 1, folded polled_def]
    by (simp add: next_delay_def)
  from wf p th mid show ?thesis by blast
qed

section \<open>Invariants of the polling connector, and the configuration\<close>

lemma deliver_frame:
  "length (pollers (settled (deliver i arr s))) = length (pollers s) \<and>
   pollerSchedule (settled (deliver i arr s)) = pollerSchedule s \<and>
   config (settled (deliver i arr s)) = config s \<and>
   nextTimer (settled (deliver i arr s)) = nextTimer s"
  by (induction arr arbitrary: s) (simp_all add: settled_def set_delay_def did_def)

lemma reply_arrives_frame:
  "length (pollers (settled (reply_arrives i r s))) = length (pollers s) \<and>
   config (settled (reply_arrives i r s)) = config s \<and>
   (pollerSchedule s \<noteq> None \<longrightarrow> pollerSchedule (settled (reply_arrives i r s)) \<noteq> None) \<and>
   (polling i s \<or> pollerSchedule (settled (reply_arrives i r s)) = pollerSchedule s)"
proof (cases "polling i s")
  case False
  then show ?thesis by (simp add: reply_arrives_def settled_def)
next
  case True
  show ?thesis
  proof (cases r)
    case (Failed e)
    then show ?thesis using True
      by (simp add: reply_arrives_def pollerRoutine_resume_def settled_def set_phase_def)
  next
    case (Arrived arr)
    define s2 where "s2 = set_delay i (min 60000 (2 * currentPollDelay (pollers s ! i)))
                          (s\<lparr>messagesReceived := messagesReceived s + length arr\<rparr>)"
    have s2: "length (pollers s2) = length (pollers s)" "config s2 = config s"
      "pollerSchedule s2 = pollerSchedule s"
      by (simp_all add: s2_def set_delay_def)
    from deliver_frame [of i arr s2] show ?thesis
      using True
      by (cases "deliver i arr s2")
         (auto simp: Arrived reply_arrives_def pollerRoutine_resume_def Let_def s2_def [symmetric]
            s2 settled_def set_phase_def setTimeout_def did_def split: prod.splits)
  qed
qed

lemma startPolling_idem: "startPolling (startPolling s) = startPolling s"
  by (simp add: startPolling_def setTimeout_def did_def Let_def)

lemma one_routine_step: "one_routine s \<Longrightarrow> one_routine (polling_step e s)"
proof (cases e)
  case (ReplyArrives i r)
  assume "one_routine s"
  then show ?thesis
    using reply_arrives_frame [of i r s]
    by (auto simp: ReplyArrives one_routine_def polling_def split: option.splits)
qed (auto simp: one_routine_def startPolling_def setTimeout_def did_def Let_def
       requestDevice_connected_def timer_fires_def set_phase_def poll_onDeviceMsg_def
       getConfig_call_def getConfig_resume_def split: option.splits reply.splits)

lemma one_routine_run: "one_routine s \<Longrightarrow> one_routine (polling_run es s)"
  by (induction es arbitrary: s) (simp_all add: one_routine_step)

lemma list_all_update: "list_all P xs \<Longrightarrow> P x \<Longrightarrow> list_all P (xs[i := x])"
  by (induction xs arbitrary: i) (auto split: nat.splits)

lemma alive_step:
  assumes "replies_ok e" and "alive s"
  shows "alive (polling_step e s)"
proof (cases e)
  case (ReplyArrives i r)
  show ?thesis
  proof (cases "polling i s")
    case False
    then show ?thesis using assms(2) by (simp add: ReplyArrives reply_arrives_def settled_def)
  next
    case True
    from assms(1) obtain arr where r: "r = Arrived arr" and wf: "well_formed arr"
      by (cases r) (simp_all add: ReplyArrives)
    show ?thesis
      using assms(2)
      by (simp add: ReplyArrives r reply_arrives_ok [OF True wf] settled_def alive_def
            list_all_update)
  qed
next
  case (TimerFires i)
  then show ?thesis
    using assms(2) by (simp add: timer_fires_def set_phase_def did_def alive_def list_all_update)
qed (use assms(2) in \<open>auto simp: alive_def startPolling_def setTimeout_def did_def Let_def
       requestDevice_connected_def poll_onDeviceMsg_def
       getConfig_call_def getConfig_resume_def split: option.splits reply.splits\<close>)

lemma alive_run: "list_all replies_ok es \<Longrightarrow> alive s \<Longrightarrow> alive (polling_run es s)"
  by (induction es arbitrary: s) (simp_all add: alive_step)

lemma new_PollingConnector_inv:
  "one_routine (new_PollingConnector loc)" "alive (new_PollingConnector loc)"
  by (simp_all add: one_routine_def alive_def new_PollingConnector_def)

text \<open>
  C9. \<^verbatim>\<open>#startPolling\<close> on a connector whose \<^verbatim>\<open>#pollerSchedule\<close> is set changes nothing, so
  starting twice is starting once. Whatever happens to a new polling connector (starts,
  timers, replies, in any order and number), it never has more than one poller routine,
  and once started it has exactly one and a further start is a no-op. As long as every
  reply arrives and is an array of messages, no routine ever ends: the one routine is
  waiting for its timer or for the reply to its poll.
\<close>

theorem startPolling_idempotent:
  "(pollerSchedule s \<noteq> None \<longrightarrow> startPolling s = s) \<and>
   startPolling (startPolling s) = startPolling s \<and>
   length (pollers (polling_run es (new_PollingConnector loc))) \<le> 1 \<and>
   (pollerSchedule (polling_run es (new_PollingConnector loc)) \<noteq> None \<longrightarrow>
      length (pollers (polling_run es (new_PollingConnector loc))) = 1 \<and>
      polling_step StartPolling (polling_run es (new_PollingConnector loc)) =
        polling_run es (new_PollingConnector loc)) \<and>
   (list_all replies_ok es \<longrightarrow>
      list_all (\<lambda>p. phase p \<noteq> Stopped) (pollers (polling_run es (new_PollingConnector loc))))"
proof -
  have one: "one_routine (polling_run es (new_PollingConnector loc))"
    by (rule one_routine_run) (rule new_PollingConnector_inv)
  have live: "list_all replies_ok es \<Longrightarrow> alive (polling_run es (new_PollingConnector loc))"
    by (rule alive_run) (simp_all add: new_PollingConnector_inv)
  have a: "pollerSchedule s \<noteq> None \<longrightarrow> startPolling s = s"
    by (simp add: startPolling_def)
  from one have b: "length (pollers (polling_run es (new_PollingConnector loc))) \<le> 1"
    by (simp add: one_routine_def split: option.splits)
  from one have c: "pollerSchedule (polling_run es (new_PollingConnector loc)) \<noteq> None \<longrightarrow>
      length (pollers (polling_run es (new_PollingConnector loc))) = 1 \<and>
      polling_step StartPolling (polling_run es (new_PollingConnector loc)) =
        polling_run es (new_PollingConnector loc)"
    by (auto simp: one_routine_def startPolling_def split: option.splits)
  from a b c live startPolling_idem [of s] show ?thesis
    by (simp add: alive_def)
qed

theorem startPolling_idempotent_witness:
  "pollerSchedule (polling_run [StartPolling, TimerFires 0, StartPolling, ReplyArrives 0 (Arrived []),
                      StartPolling]
      (new_PollingConnector \<lparr>protocol = ''https:'', host = ''localhost:1443''\<rparr>)) = Some 2 \<and>
   list_all replies_ok [StartPolling, TimerFires 0, StartPolling, ReplyArrives 0 (Arrived []),
                      StartPolling] \<and>
   pollers (polling_run [StartPolling, TimerFires 0, StartPolling, ReplyArrives 0 (Arrived []),
                      StartPolling]
      (new_PollingConnector \<lparr>protocol = ''https:'', host = ''localhost:1443''\<rparr>)) =
     [\<lparr>currentPollDelay = 2000, phase = Scheduled 2\<rparr>] \<and>
   startPolling (polling_run [StartPolling, TimerFires 0, StartPolling, ReplyArrives 0 (Arrived []),
                      StartPolling]
      (new_PollingConnector \<lparr>protocol = ''https:'', host = ''localhost:1443''\<rparr>)) =
    polling_run [StartPolling, TimerFires 0, StartPolling, ReplyArrives 0 (Arrived []),
                      StartPolling]
      (new_PollingConnector \<lparr>protocol = ''https:'', host = ''localhost:1443''\<rparr>)"
  using startPolling_idempotent
          [of "polling_run [StartPolling, TimerFires 0, StartPolling, ReplyArrives 0 (Arrived []),
                      StartPolling]
      (new_PollingConnector \<lparr>protocol = ''https:'', host = ''localhost:1443''\<rparr>)"
              "[StartPolling, TimerFires 0, StartPolling, ReplyArrives 0 (Arrived []), StartPolling]"
              "\<lparr>protocol = ''https:'', host = ''localhost:1443''\<rparr>"]
  by (simp add: new_PollingConnector_def startPolling_def setTimeout_def did_def Let_def
        timer_fires_def waiting_def set_phase_def reply_arrives_def polling_def
        pollerRoutine_resume_def set_delay_def settled_def well_formed_def httpUrl_def)

lemma infraConfig_kept:
  assumes "\<not> (has_type ''config'' m \<and> \<not> has_error m)"
  shows "infraConfig (after_throw (onWebsocketMessage m s)) = infraConfig s"
  using assms
  by (simp add: onWebsocketMessage_def after_throw_def emit_def call_reject_def call_resolve_def
        has_type_def has_error_def Let_def split: option.splits)

lemma infraConfig_step:
  assumes "\<not> stores_config e"
  shows "infraConfig (ws_step e s) = infraConfig s"
proof (cases e)
  case (Message m)
  with assms show ?thesis by (simp add: stores_config_def infraConfig_kept)
qed (simp_all add: ws_requestDevice_fields ws_sendToDevice_def wsSendJson_frame ws_onDeviceMsg_def)

lemma config_step:
  assumes "\<not> config_arrives e"
  shows "config (polling_step e s) = config s"
proof (cases e)
  case (ReplyArrives i r)
  then show ?thesis using reply_arrives_frame [of i r s] by simp
next
  case (GetConfigResumes r)
  with assms show ?thesis by (cases r) (simp_all add: getConfig_resume_def)
qed (simp_all add: startPolling_def setTimeout_def did_def Let_def requestDevice_connected_def
       timer_fires_def set_phase_def poll_onDeviceMsg_def getConfig_call_def split: option.splits)

text \<open>
  C7, as the code has it. Websocket connector: the stored configuration is replaced by
  every \<^verbatim>\<open>config\<close> message without an error, and changed by nothing else. Polling
  connector: with a value stored, \<^verbatim>\<open>#getConfig\<close> sends no GET and returns that value;
  the field changes only when the reply to a GET of the configuration arrives.
\<close>

theorem stored_config_kept:
  "(\<not> stores_config e \<longrightarrow> infraConfig (ws_step e s) = infraConfig s) \<and>
   (has_type ''config'' m \<and> \<not> has_error m \<longrightarrow> infraConfig (ws_step (Message m) s) = m) \<and>
   (config c = Some v \<longrightarrow> getConfig_call c = (Some v, c)) \<and>
   (\<not> config_arrives pe \<longrightarrow> config (polling_step pe c) = config c) \<and>
   config (polling_step (GetConfigResumes (Arrived v)) c) = Some v"
  by (simp add: infraConfig_step config_step onWebsocketMessage_config after_throw_def
        getConfig_call_def getConfig_resume_def)

theorem stored_config_kept_witness:
  "\<not> stores_config (Message (JObj [(''message_type'', JStr ''device_msg'')])) \<and>
   infraConfig (ws_run [Message (JObj [(''message_type'', JStr ''config''), (''ice_servers'', JArr [])]),
                        Message (JObj [(''message_type'', JStr ''device_msg'')])]
                  new_WebsocketConnector) =
     JObj [(''message_type'', JStr ''config''), (''ice_servers'', JArr [])] \<and>
   \<not> config_arrives GetConfigCalled \<and>
   getConfig_call
     (polling_run [GetConfigCalled, GetConfigResumes (Arrived (JObj [(''ice_servers'', JArr [])]))]
        (new_PollingConnector \<lparr>protocol = ''https:'', host = ''localhost:1443''\<rparr>)) =
     (Some (JObj [(''ice_servers'', JArr [])]),
      polling_run [GetConfigCalled, GetConfigResumes (Arrived (JObj [(''ice_servers'', JArr [])]))]
        (new_PollingConnector \<lparr>protocol = ''https:'', host = ''localhost:1443''\<rparr>)) \<and>
   gets_sent (history
     (polling_run [GetConfigCalled, GetConfigResumes (Arrived (JObj [(''ice_servers'', JArr [])])),
                   GetConfigCalled]
        (new_PollingConnector \<lparr>protocol = ''https:'', host = ''localhost:1443''\<rparr>))) =
     [''https://localhost:1443/infra_config'']"
proof -
  let ?cfg = "JObj [(''message_type'', JStr ''config''), (''ice_servers'', JArr [])]"
  let ?msg = "JObj [(''message_type'', JStr ''device_msg'')]"
  let ?c = "polling_run [GetConfigCalled, GetConfigResumes (Arrived (JObj [(''ice_servers'', JArr [])]))]
        (new_PollingConnector \<lparr>protocol = ''https:'', host = ''localhost:1443''\<rparr>)"
  have n: "\<not> stores_config (Message ?msg)" "\<not> config_arrives GetConfigCalled"
    by (simp_all add: stores_config_def has_type_def)
  have k: "has_type ''config'' ?cfg \<and> \<not> has_error ?cfg"
    by (simp add: has_type_def has_error_def)
  have v: "config ?c = Some (JObj [(''ice_servers'', JArr [])])"
    by (simp add: getConfig_call_def getConfig_resume_def new_PollingConnector_def did_def)
  note th1 = stored_config_kept
               [of "Message ?msg" "ws_step (Message ?cfg) new_WebsocketConnector" ?cfg ?c
                   "JObj [(''ice_servers'', JArr [])]" GetConfigCalled]
  note th2 = stored_config_kept
               [of "Message ?msg" new_WebsocketConnector ?cfg ?c
                   "JObj [(''ice_servers'', JArr [])]" GetConfigCalled]
  from th1 n have "infraConfig (ws_step (Message ?msg) (ws_step (Message ?cfg) new_WebsocketConnector)) =
       infraConfig (ws_step (Message ?cfg) new_WebsocketConnector)" by blast
  moreover from th2 k have "infraConfig (ws_step (Message ?cfg) new_WebsocketConnector) = ?cfg"
    by blast
  moreover from th1 v have g: "getConfig_call ?c = (Some (JObj [(''ice_servers'', JArr [])]), ?c)"
    by blast
  moreover have "gets_sent (history (polling_step GetConfigCalled ?c)) =
      [''https://localhost:1443/infra_config'']"
    by (simp add: g) (simp add: getConfig_call_def getConfig_resume_def new_PollingConnector_def
          did_def httpUrl_def)
  ultimately show ?thesis using n by simp
qed

text \<open>
  The claim as stated fails on the websocket connector: a second \<^verbatim>\<open>config\<close> message
  replaces the configuration that the first one stored.
\<close>

theorem config_replaced_counterexample:
  "infraConfig (ws_run [Message (JObj [(''message_type'', JStr ''config''), (''ice_servers'', JArr [JStr ''stun:a''])])]
                  new_WebsocketConnector) =
     JObj [(''message_type'', JStr ''config''), (''ice_servers'', JArr [JStr ''stun:a''])] \<and>
   infraConfig (ws_run [Message (JObj [(''message_type'', JStr ''config''), (''ice_servers'', JArr [JStr ''stun:a''])]),
                        Message (JObj [(''message_type'', JStr ''config''), (''ice_servers'', JArr [JStr ''stun:b''])])]
                  new_WebsocketConnector) =
     JObj [(''message_type'', JStr ''config''), (''ice_servers'', JArr [JStr ''stun:b''])] \<and>
   infraConfig (ws_run [Message (JObj [(''message_type'', JStr ''config''), (''ice_servers'', JArr [JStr ''stun:a''])]),
                        Message (JObj [(''message_type'', JStr ''config''), (''ice_servers'', JArr [JStr ''stun:b''])])]
                  new_WebsocketConnector) \<noteq>
     infraConfig (ws_run [Message (JObj [(''message_type'', JStr ''config''), (''ice_servers'', JArr [JStr ''stun:a''])])]
                  new_WebsocketConnector)"
  by (simp add: onWebsocketMessage_def after_throw_def nullish_def)

text \<open>
  C8, as the code has it. A call of \<^verbatim>\<open>#getConfig\<close> sends a GET exactly when no value is
  stored as the call begins, and the field is still empty while that GET is in flight;
  the reply is stored and returned to that caller; a call that begins once a reply is
  stored sends nothing and returns the stored value.
\<close>

theorem getConfig_fetches_when_nothing_stored:
  "(config c = None \<longrightarrow>
      getConfig_call c = (None, c\<lparr>history := history c @ [HttpGet (configUrl c)]\<rparr>) \<and>
      config (snd (getConfig_call c)) = None) \<and>
   (config c = Some v \<longrightarrow> getConfig_call c = (Some v, c)) \<and>
   getConfig_resume (Arrived v) c = (Fulfilled v, c\<lparr>config := Some v\<rparr>) \<and>
   getConfig_call (snd (getConfig_resume (Arrived v) c)) =
     (Some v, snd (getConfig_resume (Arrived v) c))"
  by (simp add: getConfig_call_def getConfig_resume_def did_def)

theorem getConfig_fetches_when_nothing_stored_witness:
  "config (new_PollingConnector \<lparr>protocol = ''https:'', host = ''localhost:1443''\<rparr>) = None \<and>
   gets_sent (history (snd (getConfig_call
      (new_PollingConnector \<lparr>protocol = ''https:'', host = ''localhost:1443''\<rparr>)))) =
     [''https://localhost:1443/infra_config''] \<and>
   config (snd (getConfig_resume (Arrived (JObj [(''ice_servers'', JArr [])]))
      (snd (getConfig_call
        (new_PollingConnector \<lparr>protocol = ''https:'', host = ''localhost:1443''\<rparr>))))) =
     Some (JObj [(''ice_servers'', JArr [])]) \<and>
   gets_sent (history (snd (getConfig_call
     (snd (getConfig_resume (Arrived (JObj [(''ice_servers'', JArr [])]))
      (snd (getConfig_call
        (new_PollingConnector \<lparr>protocol = ''https:'', host = ''localhost:1443''\<rparr>)))))))) =
     [''https://localhost:1443/infra_config'']"
  using getConfig_fetches_when_nothing_stored
          [of "new_PollingConnector \<lparr>protocol = ''https:'', host = ''localhost:1443''\<rparr>"
              "JObj [(''ice_servers'', JArr [])]"]
        getConfig_fetches_when_nothing_stored
          [of "snd (getConfig_call
                 (new_PollingConnector \<lparr>protocol = ''https:'', host = ''localhost:1443''\<rparr>))"
              "JObj [(''ice_servers'', JArr [])]"]
  by (simp add: new_PollingConnector_def httpUrl_def getConfig_call_def getConfig_resume_def
        did_def)

text \<open>
  The claim as stated fails: while the first GET is in flight nothing is stored, so a
  second call sends a second GET, and each caller gets the reply to its own request.
\<close>

theorem second_getConfig_in_flight_counterexample:
  "config (polling_run [GetConfigCalled]
     (new_PollingConnector \<lparr>protocol = ''https:'', host = ''localhost:1443''\<rparr>)) = None \<and>
   gets_sent (history (polling_run [GetConfigCalled, GetConfigCalled]
     (new_PollingConnector \<lparr>protocol = ''https:'', host = ''localhost:1443''\<rparr>))) =
     [''https://localhost:1443/infra_config'', ''https://localhost:1443/infra_config''] \<and>
   fst (getConfig_resume (Arrived (JStr ''first reply''))
     (polling_run [GetConfigCalled, GetConfigCalled]
       (new_PollingConnector \<lparr>protocol = ''https:'', host = ''localhost:1443''\<rparr>))) =
     Fulfilled (JStr ''first reply'') \<and>
   fst (getConfig_resume (Arrived (JStr ''second reply''))
     (polling_run [GetConfigCalled, GetConfigCalled, GetConfigResumes (Arrived (JStr ''first reply''))]
       (new_PollingConnector \<lparr>protocol = ''https:'', host = ''localhost:1443''\<rparr>))) =
     Fulfilled (JStr ''second reply'')"
  by (simp add: getConfig_call_def getConfig_resume_def new_PollingConnector_def did_def httpUrl_def)

end
